theory Spec2Isabelle
  imports Complex_Main "HOL-Library.AList"
begin

section \<open>JavaScript values\<close>

text \<open>
  The server keeps its rooms and players in plain JavaScript objects and merges decoded
  JSON payloads onto player records (\<^verbatim>\<open>Object.assign(player, payload)\<close>), so a player
  field can hold any JSON value. Values are modelled by \<open>jsval\<close>; an object (or a JSON
  array, read as an object keyed by its indices) is an association list in property order.

  Numbers are idealised: a JavaScript number is a real or \<open>NaN\<close>. Rounding of IEEE
  doubles, the infinities and the sign of zero are outside the model. Members inherited
  from \<^verbatim>\<open>Object.prototype\<close> are outside the model as well: a property that is not an
  own property reads as \<open>undefined\<close>.
\<close>

datatype jsnum = NaN | Fin real

datatype jsval =
    JUndefined
  | JNull
  | JBool bool
  | JNum jsnum
  | JStr string
  | JObj "(string \<times> jsval) list"

type_synonym jsobj = "(string \<times> jsval) list"

text \<open>
  The conversions of ECMAScript that the repository does not define, and that depend on
  the text of numbers: \<open>str_num\<close> is StringToNumber, \<open>num_str\<close> is Number::toString,
  \<open>obj_str\<close> is the string a compound value converts to (\<^verbatim>\<open>[object Object]\<close>, or the
  joined elements of an array), \<open>str_props\<close> lists the enumerable own properties of a
  string (its characters under their indices). They are parameters of the model.
\<close>

record coercions =
  str_num :: "string \<Rightarrow> jsnum"
  num_str :: "jsnum \<Rightarrow> string"
  obj_str :: "jsobj \<Rightarrow> string"
  str_props :: "string \<Rightarrow> jsobj"

fun truthy :: "jsval \<Rightarrow> bool" where
  "truthy JUndefined = False"
| "truthy JNull = False"
| "truthy (JBool b) = b"
| "truthy (JNum NaN) = False"
| "truthy (JNum (Fin r)) = (r \<noteq> 0)"
| "truthy (JStr s) = (s \<noteq> [])"
| "truthy (JObj kvs) = True"

fun nullish :: "jsval \<Rightarrow> bool" where
  "nullish JUndefined = True"
| "nullish JNull = True"
| "nullish v = False"

text \<open>\<^verbatim>\<open>a === b\<close>. Exact on primitive values; compound values are compared by their
  contents here and by identity in JavaScript.\<close>

definition strict_eq :: "jsval \<Rightarrow> jsval \<Rightarrow> bool" where
  "strict_eq a b = (a = b \<and> a \<noteq> JNum NaN)"

fun tostr :: "coercions \<Rightarrow> jsval \<Rightarrow> string" where
  "tostr cv JUndefined = ''undefined''"
| "tostr cv JNull = ''null''"
| "tostr cv (JBool b) = (if b then ''true'' else ''false'')"
| "tostr cv (JNum n) = num_str cv n"
| "tostr cv (JStr s) = s"
| "tostr cv (JObj kvs) = obj_str cv kvs"

fun tonum :: "coercions \<Rightarrow> jsval \<Rightarrow> jsnum" where
  "tonum cv JUndefined = NaN"
| "tonum cv JNull = Fin 0"
| "tonum cv (JBool b) = Fin (if b then 1 else 0)"
| "tonum cv (JNum n) = n"
| "tonum cv (JStr s) = str_num cv s"
| "tonum cv (JObj kvs) = str_num cv (obj_str cv kvs)"

fun nadd :: "jsnum \<Rightarrow> jsnum \<Rightarrow> jsnum" where
  "nadd (Fin a) (Fin b) = Fin (a + b)"
| "nadd a b = NaN"

fun nsub :: "jsnum \<Rightarrow> jsnum \<Rightarrow> jsnum" where
  "nsub (Fin a) (Fin b) = Fin (a - b)"
| "nsub a b = NaN"

fun nmul :: "jsnum \<Rightarrow> jsnum \<Rightarrow> jsnum" where
  "nmul (Fin a) (Fin b) = Fin (a * b)"
| "nmul a b = NaN"

fun nabs :: "jsnum \<Rightarrow> jsnum" where
  "nabs (Fin a) = Fin \<bar>a\<bar>"
| "nabs NaN = NaN"

text \<open>\<^verbatim>\<open>a < b\<close> on numbers: false as soon as one side is \<open>NaN\<close>.\<close>

fun nless :: "jsnum \<Rightarrow> jsnum \<Rightarrow> bool" where
  "nless (Fin a) (Fin b) = (a < b)"
| "nless a b = False"

text \<open>\<^verbatim>\<open>Math.max(a, b)\<close> and \<^verbatim>\<open>Math.min(a, b)\<close>: both arguments are converted to
  numbers, and the result is \<open>NaN\<close> as soon as one of them is.\<close>

fun Math_max :: "jsnum \<Rightarrow> jsnum \<Rightarrow> jsnum" where
  "Math_max (Fin a) (Fin b) = Fin (max a b)"
| "Math_max a b = NaN"

fun Math_min :: "jsnum \<Rightarrow> jsnum \<Rightarrow> jsnum" where
  "Math_min (Fin a) (Fin b) = Fin (min a b)"
| "Math_min a b = NaN"

fun is_textual :: "jsval \<Rightarrow> bool" where
  "is_textual (JStr s) = True"
| "is_textual (JObj kvs) = True"
| "is_textual v = False"

text \<open>\<^verbatim>\<open>a + b\<close>: concatenation when either operand converts to a string (a string or a
  compound value), numeric addition otherwise.\<close>

definition js_add :: "coercions \<Rightarrow> jsval \<Rightarrow> jsval \<Rightarrow> jsval" where
  "js_add cv a b =
     (if is_textual a \<or> is_textual b then JStr (tostr cv a @ tostr cv b)
      else JNum (nadd (tonum cv a) (tonum cv b)))"

text \<open>\<^verbatim>\<open>v.k\<close> for a value \<open>v\<close> that is neither \<open>undefined\<close> nor \<open>null\<close> (reading a
  property of those throws; the callers test \<open>nullish\<close> first). The names read by the
  server are not own properties of a string, a number or a boolean.\<close>

fun get_prop :: "jsval \<Rightarrow> string \<Rightarrow> jsval" where
  "get_prop (JObj kvs) k = (case map_of kvs k of Some v \<Rightarrow> v | None \<Rightarrow> JUndefined)"
| "get_prop v k = JUndefined"

text \<open>A field of a player record.\<close>

definition fld :: "jsobj \<Rightarrow> string \<Rightarrow> jsval" where
  "fld p k = (case map_of p k of Some v \<Rightarrow> v | None \<Rightarrow> JUndefined)"

definition set_fld :: "string \<Rightarrow> jsval \<Rightarrow> jsobj \<Rightarrow> jsobj" where
  "set_fld k v p = AList.update k v p"

text \<open>\<^verbatim>\<open>Object.assign(target, source)\<close>: copies the enumerable own properties of the
  source, in order; a source that is \<open>undefined\<close>, \<open>null\<close>, a number or a boolean has
  none.\<close>

fun own_props :: "coercions \<Rightarrow> jsval \<Rightarrow> jsobj" where
  "own_props cv (JObj kvs) = kvs"
| "own_props cv (JStr s) = str_props cv s"
| "own_props cv v = []"

definition Object_assign :: "coercions \<Rightarrow> jsobj \<Rightarrow> jsval \<Rightarrow> jsobj" where
  "Object_assign cv target source =
     fold (\<lambda>(k, v) tg. set_fld k v tg) (own_props cv source) target"


section \<open>The room server (second document of \<^verbatim>\<open>server.js\<close>)\<close>

subsection \<open>Constants\<close>

definition TICK_RATE :: real where "TICK_RATE = 60"
definition TICK_TIME :: real where "TICK_TIME = 1000 / TICK_RATE"
definition LANE_X :: "real list" where "LANE_X = [-4, 0, 4]"
definition PLAYER_START_Y :: real where "PLAYER_START_Y = 1"
definition PLAYER_START_Z :: real where "PLAYER_START_Z = 0"
definition OBSTACLE_BOUNDS :: real where "OBSTACLE_BOUNDS = 16 / 10"

text \<open>\<^verbatim>\<open>LANE_X[i]\<close> for an integer \<open>i\<close>: \<open>undefined\<close> outside the array.\<close>

definition LANE_X_at :: "int \<Rightarrow> jsval" where
  "LANE_X_at i =
     (if 0 \<le> i \<and> i < int (length LANE_X) then JNum (Fin (LANE_X ! nat i)) else JUndefined)"

text \<open>\<^verbatim>\<open>LANE_X[k]\<close> for a property key that is a string. An inherited member of
  \<^verbatim>\<open>Array.prototype\<close> reads as \<open>undefined\<close> here; in the one place where the result is
  used, a subtraction, both convert to \<open>NaN\<close>.\<close>

definition LANE_X_key :: "string \<Rightarrow> jsval" where
  "LANE_X_key k =
     (if k = ''0'' then LANE_X_at 0
      else if k = ''1'' then LANE_X_at 1
      else if k = ''2'' then LANE_X_at 2
      else if k = ''length'' then JNum (Fin (real (length LANE_X)))
      else JUndefined)"

text \<open>\<^verbatim>\<open>LANE_X[v]\<close> for any value \<open>v\<close>: a number is an index exactly when it is a
  non-negative integer, and never the key \<^verbatim>\<open>length\<close>; any other value is converted to
  its string.\<close>

fun LANE_X_get :: "coercions \<Rightarrow> jsval \<Rightarrow> jsval" where
  "LANE_X_get cv (JNum (Fin r)) = (if of_int \<lfloor>r\<rfloor> = r then LANE_X_at \<lfloor>r\<rfloor> else JUndefined)"
| "LANE_X_get cv (JNum NaN) = JUndefined"
| "LANE_X_get cv v = LANE_X_key (tostr cv v)"

subsection \<open>State\<close>

record obstacle =
  o_id :: string
  o_x :: jsval
  o_y :: real
  o_z :: real

text \<open>A room. The fields \<open>score\<close>, \<open>room_t\<close> (the source's \<^verbatim>\<open>t\<close>) and \<open>obstacles\<close> do
  not exist on the JavaScript object until \<^verbatim>\<open>startGame\<close> assigns them, and are read
  only by \<^verbatim>\<open>gameLoop\<close> on a running room; \<open>gameInterval\<close> tells whether the interval
  timer of the room is scheduled.\<close>

record room =
  players :: "(string \<times> jsobj) list"
  running :: bool
  score :: real
  room_t :: real
  obstacles :: "obstacle list"
  gameInterval :: bool

datatype ready_state = CONNECTING | OPEN | CLOSING | CLOSED

text \<open>A connection (\<^verbatim>\<open>ws\<close>), with the two fields the \<^verbatim>\<open>join\<close> case writes on it.\<close>

record client =
  readyState :: ready_state
  roomId :: jsval
  playerId :: jsval

record state =
  rooms :: "(string \<times> room) list"
  clients :: "(nat \<times> client) list"

datatype outmsg =
    StateMsg jsval "(string \<times> jsobj) list"
  | GameStateMsg jsval "(string \<times> jsobj) list" "obstacle list" int bool
  | GameOverMsg jsval

type_synonym sent = "(nat \<times> outmsg) list"

definition fresh_room :: room where
  "fresh_room = \<lparr>players = [], running = False, score = 0, room_t = 0, obstacles = [],
      gameInterval = False\<rparr>"

definition put_room :: "string \<Rightarrow> room \<Rightarrow> state \<Rightarrow> state" where
  "put_room k r s = s\<lparr>rooms := AList.update k r (rooms s)\<rparr>"

subsection \<open>Broadcasting\<close>

definition receives :: "jsval \<Rightarrow> client \<Rightarrow> bool" where
  "receives rid c = (readyState c = OPEN \<and> strict_eq (roomId c) rid)"

definition broadcastToRoom :: "state \<Rightarrow> jsval \<Rightarrow> outmsg \<Rightarrow> sent" where
  "broadcastToRoom s rid data =
     map (\<lambda>(w, c). (w, data)) (filter (\<lambda>(w, c). receives rid c) (clients s))"

subsection \<open>Starting and stopping a round\<close>

text \<open>\<open>rnd\<close> gives the successive results of \<^verbatim>\<open>Math.random()\<close> during one handler or
  tick, \<open>uu\<close> the successive results of \<^verbatim>\<open>uuidv4()\<close>.\<close>

definition spawnObstacle :: "(nat \<Rightarrow> real) \<Rightarrow> (nat \<Rightarrow> string) \<Rightarrow> nat \<Rightarrow> room \<Rightarrow> real \<Rightarrow> room" where
  "spawnObstacle rnd uu n r z =
     (let laneIndex = \<lfloor>rnd n * real (length LANE_X)\<rfloor>
      in r\<lparr>obstacles := obstacles r @
            [\<lparr>o_id = uu n, o_x = LANE_X_at laneIndex, o_y = 9 / 10, o_z = z\<rparr>]\<rparr>)"

definition reset_player :: "jsobj \<Rightarrow> jsobj" where
  "reset_player p =
     set_fld ''laneCurrent'' (JNum (Fin 0))
      (set_fld ''laneTarget'' (JNum (Fin 1))
        (set_fld ''z'' (JNum (Fin PLAYER_START_Z))
          (set_fld ''y'' (JNum (Fin PLAYER_START_Y))
            (set_fld ''x'' (JNum (Fin 0))
              (set_fld ''alive'' (JBool True) p)))))"

definition startGame :: "coercions \<Rightarrow> (nat \<Rightarrow> real) \<Rightarrow> (nat \<Rightarrow> string) \<Rightarrow> jsval \<Rightarrow> state \<Rightarrow> state" where
  "startGame cv rnd uu rid s =
     (case map_of (rooms s) (tostr cv rid) of
        None \<Rightarrow> s
      | Some r \<Rightarrow>
          if running r then s
          else
            let r1 = r\<lparr>running := True, score := 0, room_t := 0, obstacles := []\<rparr>;
                r2 = r1\<lparr>players := map (\<lambda>(k, p). (k, reset_player p)) (players r1)\<rparr>;
                r3 = fold (\<lambda>i rm. spawnObstacle rnd uu (i - 1) rm (- real i * 20))
                       [1, 2, 3, 4, 5, 6, 7, 8] r2
            in put_room (tostr cv rid) (r3\<lparr>gameInterval := True\<rparr>) s)"

definition stopGame :: "coercions \<Rightarrow> jsval \<Rightarrow> state \<Rightarrow> state \<times> sent" where
  "stopGame cv rid s =
     (case map_of (rooms s) (tostr cv rid) of
        None \<Rightarrow> (s, [])
      | Some r \<Rightarrow>
          if \<not> running r then (s, [])
          else
            let s' = put_room (tostr cv rid) (r\<lparr>gameInterval := False, running := False\<rparr>) s
            in (s', broadcastToRoom s' rid (GameOverMsg rid)))"

subsection \<open>The tick\<close>

text \<open>The obstacle loop of \<^verbatim>\<open>gameLoop\<close>, on the obstacles in the order the loop visits
  them (last index first); \<open>n\<close> counts the calls of \<^verbatim>\<open>Math.random()\<close> made so far.\<close>

fun recycle :: "real \<Rightarrow> (nat \<Rightarrow> real) \<Rightarrow> nat \<Rightarrow> obstacle list \<Rightarrow> obstacle list" where
  "recycle speed rnd n [] = []"
| "recycle speed rnd n (ob # obs) =
     (let z1 = o_z ob + speed
      in if z1 > 6
         then ob\<lparr>o_z := - (160 + rnd n * 80),
                 o_x := LANE_X_at \<lfloor>rnd (n + 1) * real (length LANE_X)\<rfloor>\<rparr>
              # recycle speed rnd (n + 2) obs
         else ob\<lparr>o_z := z1\<rparr> # recycle speed rnd n obs)"

definition update_obstacles :: "real \<Rightarrow> (nat \<Rightarrow> real) \<Rightarrow> obstacle list \<Rightarrow> obstacle list" where
  "update_obstacles speed rnd obs = rev (recycle speed rnd 0 (rev obs))"

text \<open>Smooth lane interpolation of one player.\<close>

definition smooth_player :: "coercions \<Rightarrow> jsobj \<Rightarrow> jsobj" where
  "smooth_player cv p =
     (let targetX = LANE_X_get cv (fld p ''laneTarget'');
          delta = nmul (nsub (tonum cv targetX) (tonum cv (fld p ''laneCurrent''))) (Fin (15 / 100));
          p1 = set_fld ''laneCurrent'' (js_add cv (fld p ''laneCurrent'') (JNum delta)) p
      in set_fld ''x'' (fld p1 ''laneCurrent'') p1)"

definition collides :: "coercions \<Rightarrow> jsobj \<Rightarrow> obstacle \<Rightarrow> bool" where
  "collides cv p ob =
     (let dx = nabs (nsub (tonum cv (o_x ob)) (tonum cv (fld p ''x'')));
          dz = nabs (nsub (Fin (o_z ob)) (tonum cv (fld p ''z'')))
      in nless dx (Fin OBSTACLE_BOUNDS) \<and> nless dz (Fin OBSTACLE_BOUNDS))"

text \<open>The body of the player loop for a player that is alive.\<close>

definition update_player :: "coercions \<Rightarrow> obstacle list \<Rightarrow> jsobj \<Rightarrow> jsobj" where
  "update_player cv obs p =
     (let p1 = smooth_player cv p
      in if list_ex (collides cv p1) obs then set_fld ''alive'' (JBool False) p1 else p1)"

definition is_alive :: "jsobj \<Rightarrow> bool" where
  "is_alive p = truthy (fld p ''alive'')"

definition speed_at :: "real \<Rightarrow> real" where
  "speed_at tm = 5 / 10 + min (35 / 10) (tm * (12 / 100))"

definition gameLoop :: "coercions \<Rightarrow> (nat \<Rightarrow> real) \<Rightarrow> jsval \<Rightarrow> state \<Rightarrow> state \<times> sent" where
  "gameLoop cv rnd rid s =
     (case map_of (rooms s) (tostr cv rid) of
        None \<Rightarrow> (s, [])
      | Some r \<Rightarrow>
          if \<not> running r then (s, [])
          else
            let tm = room_t r + TICK_TIME / 1000;
                speed = speed_at tm;
                sc = score r + speed * (TICK_TIME / 1000) * 10;
                obs = update_obstacles speed rnd (obstacles r);
                playersAlive = length (filter (\<lambda>(k, p). is_alive p) (players r));
                ps = map (\<lambda>(k, p). (k, if is_alive p then update_player cv obs p else p))
                       (players r);
                r' = r\<lparr>room_t := tm, score := sc, obstacles := obs, players := ps\<rparr>;
                s' = put_room (tostr cv rid) r' s
            in if playersAlive = 0 \<and> length ps > 0 then stopGame cv rid s'
               else (s', broadcastToRoom s' rid
                           (GameStateMsg rid ps obs \<lfloor>sc\<rfloor> (running r'))))"

subsection \<open>The message handler\<close>

text \<open>Each case returns the new state, what was sent, and whether an exception was thrown
  (and caught and logged by the handler's \<^verbatim>\<open>catch\<close>). What was assigned before the
  exception stays assigned, as in the source.\<close>

definition new_player :: "jsval \<Rightarrow> jsobj" where
  "new_player payload =
     [(''nickname'', get_prop payload ''nickname''),
      (''color'', get_prop payload ''color''),
      (''ready'', JBool False),
      (''alive'', JBool True),
      (''x'', JNum (Fin 0)),
      (''y'', JNum (Fin PLAYER_START_Y)),
      (''z'', JNum (Fin PLAYER_START_Z)),
      (''laneTarget'', JNum (Fin 1)),
      (''laneCurrent'', JNum (Fin 0))]"

definition bind_client :: "nat \<Rightarrow> jsval \<Rightarrow> jsval \<Rightarrow> state \<Rightarrow> state" where
  "bind_client ws rid pid s =
     s\<lparr>clients := AList.map_entry ws (\<lambda>c. c\<lparr>roomId := rid, playerId := pid\<rparr>) (clients s)\<rparr>"

definition join_case ::
  "coercions \<Rightarrow> nat \<Rightarrow> jsval \<Rightarrow> jsval \<Rightarrow> jsval \<Rightarrow> room \<Rightarrow> state \<Rightarrow> state \<times> sent \<times> bool" where
  "join_case cv ws rid pid payload r s =
     (let s1 = bind_client ws rid pid s
      in if nullish payload then (s1, [], True)
         else
           let r' = r\<lparr>players := AList.update (tostr cv pid) (new_player payload) (players r)\<rparr>;
               s2 = put_room (tostr cv rid) r' s1
           in (s2, broadcastToRoom s2 rid (StateMsg rid (players r')), False))"

definition start_condition :: "room \<Rightarrow> bool" where
  "start_condition r =
     (list_all (\<lambda>(k, p). truthy (fld p ''ready'')) (players r) \<and> \<not> running r
      \<and> length (players r) > 0)"

definition merge_update :: "coercions \<Rightarrow> jsval \<Rightarrow> jsval \<Rightarrow> room \<Rightarrow> room" where
  "merge_update cv pid payload r =
     (case map_of (players r) (tostr cv pid) of
        None \<Rightarrow> r
      | Some p \<Rightarrow>
          r\<lparr>players := AList.update (tostr cv pid) (Object_assign cv p payload) (players r)\<rparr>)"

definition update_case ::
  "coercions \<Rightarrow> (nat \<Rightarrow> real) \<Rightarrow> (nat \<Rightarrow> string) \<Rightarrow> jsval \<Rightarrow> jsval \<Rightarrow> jsval \<Rightarrow> room \<Rightarrow> state
     \<Rightarrow> state \<times> sent \<times> bool" where
  "update_case cv rnd uu rid pid payload r s =
     (let r' = merge_update cv pid payload r;
          s1 = put_room (tostr cv rid) r' s;
          out = broadcastToRoom s1 rid (StateMsg rid (players r'))
      in if start_condition r' then (startGame cv rnd uu rid s1, out, False)
         else (s1, out, False))"

definition input_case ::
  "coercions \<Rightarrow> jsval \<Rightarrow> jsval \<Rightarrow> jsval \<Rightarrow> room \<Rightarrow> state \<Rightarrow> state \<times> sent \<times> bool" where
  "input_case cv rid pid payload r s =
     (case map_of (players r) (tostr cv pid) of
        None \<Rightarrow> (s, [], False)
      | Some p \<Rightarrow>
          if \<not> is_alive p then (s, [], False)
          else if nullish payload then (s, [], True)
          else
            let lt = fld p ''laneTarget'';
                store = (\<lambda>v. put_room (tostr cv rid)
                            (r\<lparr>players := AList.update (tostr cv pid)
                                   (set_fld ''laneTarget'' v p) (players r)\<rparr>) s)
            in if strict_eq (get_prop payload ''input'') (JStr ''left'')
               then (store (JNum (Math_max (Fin 0) (nsub (tonum cv lt) (Fin 1)))), [], False)
               else if strict_eq (get_prop payload ''input'') (JStr ''right'')
               then (store (JNum (Math_min (Fin (real (length LANE_X) - 1))
                                     (tonum cv (js_add cv lt (JNum (Fin 1)))))), [], False)
               else (s, [], False))"

text \<open>\<open>msg\<close> is the result of \<^verbatim>\<open>JSON.parse\<close>: \<open>None\<close> when it throws. Destructuring
  \<open>null\<close> throws as well; any other decoded value has the four properties, possibly
  \<open>undefined\<close>.\<close>

definition on_message ::
  "coercions \<Rightarrow> (nat \<Rightarrow> real) \<Rightarrow> (nat \<Rightarrow> string) \<Rightarrow> nat \<Rightarrow> jsval option \<Rightarrow> state
     \<Rightarrow> state \<times> sent \<times> bool" where
  "on_message cv rnd uu ws msg s =
     (case msg of
        None \<Rightarrow> (s, [], True)
      | Some data \<Rightarrow>
          if nullish data then (s, [], True)
          else
            let rid = get_prop data ''roomId'';
                pid = get_prop data ''playerId'';
                action = get_prop data ''action'';
                payload = get_prop data ''payload'';
                r = (case map_of (rooms s) (tostr cv rid) of None \<Rightarrow> fresh_room | Some r0 \<Rightarrow> r0);
                s1 = put_room (tostr cv rid) r s
            in if strict_eq action (JStr ''join'') then join_case cv ws rid pid payload r s1
               else if strict_eq action (JStr ''update'')
               then update_case cv rnd uu rid pid payload r s1
               else if strict_eq action (JStr ''input'') then input_case cv rid pid payload r s1
               else (s1, [], False))"

subsection \<open>Connections\<close>

definition on_connection :: "nat \<Rightarrow> state \<Rightarrow> state" where
  "on_connection ws s =
     s\<lparr>clients := AList.update ws
          \<lparr>readyState = OPEN, roomId = JUndefined, playerId = JUndefined\<rparr> (clients s)\<rparr>"

text \<open>The \<^verbatim>\<open>close\<close> handler. The \<^verbatim>\<open>ws\<close> library has removed the connection from
  \<^verbatim>\<open>wss.clients\<close> before the handler runs.\<close>

definition on_close :: "coercions \<Rightarrow> nat \<Rightarrow> state \<Rightarrow> state \<times> sent" where
  "on_close cv ws s =
     (let s0 = s\<lparr>clients := AList.delete ws (clients s)\<rparr>
      in case map_of (clients s) ws of
           None \<Rightarrow> (s0, [])
         | Some c \<Rightarrow>
             (case map_of (rooms s0) (tostr cv (roomId c)) of
                None \<Rightarrow> (s0, [])
              | Some r \<Rightarrow>
                  if \<not> (truthy (roomId c) \<and> truthy (playerId c)) then (s0, [])
                  else
                    let r' = r\<lparr>players := AList.delete (tostr cv (playerId c)) (players r)\<rparr>;
                        s1 = put_room (tostr cv (roomId c)) r' s0
                    in if length (players r') = 0
                       then (let (s2, out) = stopGame cv (roomId c) s1
                             in (s2\<lparr>rooms := AList.delete (tostr cv (roomId c)) (rooms s2)\<rparr>, out))
                       else (s1, broadcastToRoom s1 (roomId c) (StateMsg (roomId c) (players r')))))"

subsection \<open>Runs\<close>

datatype event =
    Connection nat
  | Message nat "jsval option" "nat \<Rightarrow> real" "nat \<Rightarrow> string"
  | Close nat
  | Tick jsval "nat \<Rightarrow> real"

fun step :: "coercions \<Rightarrow> event \<Rightarrow> state \<Rightarrow> state \<times> sent" where
  "step cv (Connection ws) s = (on_connection ws s, [])"
| "step cv (Message ws msg rnd uu) s = (let (s', out, err) = on_message cv rnd uu ws msg s in (s', out))"
| "step cv (Close ws) s = on_close cv ws s"
| "step cv (Tick rid rnd) s = gameLoop cv rnd rid s"

fun run :: "coercions \<Rightarrow> event list \<Rightarrow> state \<Rightarrow> state \<times> sent" where
  "run cv [] s = (s, [])"
| "run cv (e # es) s =
     (let (s1, out1) = step cv e s; (s2, out2) = run cv es s1 in (s2, out1 @ out2))"

definition init :: state where
  "init = \<lparr>rooms = [], clients = []\<rparr>"

section \<open>The first document of \<^verbatim>\<open>server.js\<close>\<close>

text \<open>The file holds an earlier server before the room server: its rooms are
  \<^verbatim>\<open>{ players: {} }\<close>, its connections carry no binding, and its handler sends each
  snapshot with \<^verbatim>\<open>wss.clients.forEach\<close>.\<close>

record state_v1 =
  rooms_v1 :: "(string \<times> (string \<times> jsobj) list) list"
  clients_v1 :: "(nat \<times> ready_state) list"

definition new_player_v1 :: "jsval \<Rightarrow> jsobj" where
  "new_player_v1 payload =
     [(''nickname'', get_prop payload ''nickname''),
      (''color'', get_prop payload ''color''),
      (''ready'', JBool False),
      (''alive'', JBool True),
      (''x'', JNum (Fin 0)),
      (''y'', JNum (Fin 0))]"

definition send_all_v1 :: "state_v1 \<Rightarrow> outmsg \<Rightarrow> sent" where
  "send_all_v1 s data =
     map (\<lambda>(w, st). (w, data)) (filter (\<lambda>(w, st). st = OPEN) (clients_v1 s))"

definition on_message_v1 :: "coercions \<Rightarrow> jsval option \<Rightarrow> state_v1 \<Rightarrow> state_v1 \<times> sent \<times> bool" where
  "on_message_v1 cv msg s =
     (case msg of
        None \<Rightarrow> (s, [], True)
      | Some data \<Rightarrow>
          if nullish data then (s, [], True)
          else
            let rid = get_prop data ''roomId'';
                pid = get_prop data ''playerId'';
                action = get_prop data ''action'';
                payload = get_prop data ''payload'';
                ps = (case map_of (rooms_v1 s) (tostr cv rid) of None \<Rightarrow> [] | Some ps0 \<Rightarrow> ps0);
                store = (\<lambda>ps'. s\<lparr>rooms_v1 := AList.update (tostr cv rid) ps' (rooms_v1 s)\<rparr>)
            in if strict_eq action (JStr ''join'') \<and> nullish payload then (store ps, [], True)
               else
                 let ps1 = (if strict_eq action (JStr ''join'')
                            then AList.update (tostr cv pid) (new_player_v1 payload) ps else ps)
                 in if strict_eq action (JStr ''update'')
                    then (case map_of ps1 (tostr cv pid) of
                            None \<Rightarrow> (store ps1, [], True)
                          | Some p \<Rightarrow>
                              let ps2 = AList.update (tostr cv pid) (Object_assign cv p payload) ps1
                              in (store ps2, send_all_v1 (store ps2) (StateMsg rid ps2), False))
                    else (store ps1, send_all_v1 (store ps1) (StateMsg rid ps1), False))"

section \<open>Closed examples\<close>

text \<open>A coercion table for closed examples. The examples use strings as identifiers and
  numbers or booleans as field values, so that none of its entries is consulted (the last
  section proves the runs of the counterexamples for every table); outside the empty string
  and \<open>NaN\<close> the entries are arbitrary.\<close>

definition cv0 :: coercions where
  "cv0 = \<lparr>str_num = (\<lambda>s. if s = [] then Fin 0 else NaN), num_str = (\<lambda>n. ''NaN''),
      obj_str = (\<lambda>kvs. ''[object Object]''), str_props = (\<lambda>s. [])\<rparr>"

definition msg_of :: "string \<Rightarrow> string \<Rightarrow> string \<Rightarrow> jsval \<Rightarrow> jsval" where
  "msg_of rk pk action payload =
     JObj [(''roomId'', JStr rk), (''playerId'', JStr pk), (''action'', JStr action),
           (''payload'', payload)]"

definition join_payload :: jsval where
  "join_payload = JObj [(''nickname'', JStr ''Ann''), (''color'', JStr ''red'')]"

definition rnd0 :: "nat \<Rightarrow> real" where "rnd0 n = 1 / 2"

definition uu0 :: "nat \<Rightarrow> string" where "uu0 n = ''id''"

definition input_msg :: "string \<Rightarrow> string \<Rightarrow> string \<Rightarrow> event" where
  "input_msg rk pk d =
     Message 0 (Some (msg_of rk pk ''input'' (JObj [(''input'', JStr d)]))) rnd0 uu0"

text \<open>One connection, which has joined room \<open>R\<close> as player \<open>A\<close>.\<close>

definition lobby :: state where
  "lobby = \<lparr>rooms = [(''R'', fresh_room\<lparr>players := [(''A'', new_player join_payload)]\<rparr>)],
     clients = [(0, \<lparr>readyState = OPEN, roomId = JStr ''R'', playerId = JStr ''A''\<rparr>)]\<rparr>"

section \<open>Notions used in the statements\<close>

text \<open>The room a message addresses: the handler creates it when it is absent.\<close>

definition the_room :: "coercions \<Rightarrow> jsval \<Rightarrow> state \<Rightarrow> room" where
  "the_room cv rid s =
     (case map_of (rooms s) (tostr cv rid) of None \<Rightarrow> fresh_room | Some r0 \<Rightarrow> r0)"

definition player_at :: "state \<Rightarrow> string \<Rightarrow> string \<Rightarrow> jsobj option" where
  "player_at s rk pk =
     (case map_of (rooms s) rk of None \<Rightarrow> None | Some r \<Rightarrow> map_of (players r) pk)"

definition field_at :: "state \<Rightarrow> string \<Rightarrow> string \<Rightarrow> string \<Rightarrow> jsval option" where
  "field_at s rk pk f = map_option (\<lambda>p. fld p f) (player_at s rk pk)"

definition all_players :: "(jsobj \<Rightarrow> bool) \<Rightarrow> state \<Rightarrow> bool" where
  "all_players P s = list_all (\<lambda>(rk, r). list_all (\<lambda>(pk, p). P p) (players r)) (rooms s)"

text \<open>\<open>laneTarget\<close> is an index of \<open>LANE_X\<close>.\<close>

definition lane_ok :: "jsobj \<Rightarrow> bool" where
  "lane_ok p = (fld p ''laneTarget'' = JNum (Fin 0) \<or> fld p ''laneTarget'' = JNum (Fin 1)
     \<or> fld p ''laneTarget'' = JNum (Fin 2))"

text \<open>An \<^verbatim>\<open>input\<close> message whose payload carries the direction \<open>d\<close>.\<close>

fun input_dir :: "event \<Rightarrow> string \<Rightarrow> bool" where
  "input_dir (Message ws (Some data) rnd uu) d =
     (\<not> nullish data \<and> get_prop data ''action'' = JStr ''input''
      \<and> get_prop (get_prop data ''payload'') ''input'' = JStr d)"
| "input_dir e d = False"

definition lane_input :: "event \<Rightarrow> bool" where
  "lane_input e = (input_dir e ''left'' \<or> input_dir e ''right'')"

text \<open>What one tick makes of a running room (the first part of \<^verbatim>\<open>gameLoop\<close>).\<close>

definition tick_speed :: "room \<Rightarrow> real" where
  "tick_speed r = speed_at (room_t r + TICK_TIME / 1000)"

definition tick_obstacles :: "(nat \<Rightarrow> real) \<Rightarrow> room \<Rightarrow> obstacle list" where
  "tick_obstacles rnd r = update_obstacles (tick_speed r) rnd (obstacles r)"

definition tick_players :: "coercions \<Rightarrow> (nat \<Rightarrow> real) \<Rightarrow> room \<Rightarrow> (string \<times> jsobj) list" where
  "tick_players cv rnd r =
     map (\<lambda>(k, p). (k, if is_alive p then update_player cv (tick_obstacles rnd r) p else p))
       (players r)"

definition tick_room :: "coercions \<Rightarrow> (nat \<Rightarrow> real) \<Rightarrow> room \<Rightarrow> room" where
  "tick_room cv rnd r =
     r\<lparr>room_t := room_t r + TICK_TIME / 1000,
       score := score r + tick_speed r * (TICK_TIME / 1000) * 10,
       obstacles := tick_obstacles rnd r,
       players := tick_players cv rnd r\<rparr>"

text \<open>The test \<^verbatim>\<open>playersAlive === 0 && Object.keys(room.players).length > 0\<close>.\<close>

definition round_over :: "room \<Rightarrow> bool" where
  "round_over r = (\<not> list_ex (\<lambda>(k, p). is_alive p) (players r) \<and> players r \<noteq> [])"


definition room_running :: "state \<Rightarrow> string \<Rightarrow> bool" where
  "room_running s k = (case map_of (rooms s) k of None \<Rightarrow> False | Some r \<Rightarrow> running r)"


text \<open>A running room with one player and one obstacle just ahead of the player, and the
  state after its tick: the player has collided.\<close>

definition arena :: state where
  "arena = \<lparr>rooms = [(''R'', \<lparr>players = [(''A'', new_player join_payload)], running = True,
        score = 0, room_t = 0,
        obstacles = [\<lparr>o_id = ''o1'', o_x = JNum (Fin 0), o_y = 9 / 10, o_z = - 1\<rparr>],
        gameInterval = True\<rparr>)],
     clients = [(0, \<lparr>readyState = OPEN, roomId = JStr ''R'', playerId = JStr ''A''\<rparr>)]\<rparr>"

definition dead_player :: jsobj where
  "dead_player = set_fld ''alive'' (JBool False) (new_player join_payload)"

definition wreck :: state where
  "wreck = \<lparr>rooms = [(''R'', \<lparr>players = [(''A'', dead_player)], running = True,
        score = 251 / 3000, room_t = 1 / 60,
        obstacles = [\<lparr>o_id = ''o1'', o_x = JNum (Fin 0), o_y = 9 / 10, o_z = - (249 / 500)\<rparr>],
        gameInterval = True\<rparr>)],
     clients = [(0, \<lparr>readyState = OPEN, roomId = JStr ''R'', playerId = JStr ''A''\<rparr>)]\<rparr>"

text \<open>The room after the merge of an \<^verbatim>\<open>update\<close> message, and the readiness test.\<close>

definition merged_room :: "coercions \<Rightarrow> jsval \<Rightarrow> state \<Rightarrow> room" where
  "merged_room cv data s =
     merge_update cv (get_prop data ''playerId'') (get_prop data ''payload'')
       (the_room cv (get_prop data ''roomId'') s)"

definition everyone_ready :: "room \<Rightarrow> bool" where
  "everyone_ready r =
     (players r \<noteq> [] \<and> list_all (\<lambda>(k, p). truthy (fld p ''ready'')) (players r))"

definition update_msg :: "string \<Rightarrow> string \<Rightarrow> jsval \<Rightarrow> event" where
  "update_msg rk pk payload = Message 0 (Some (msg_of rk pk ''update'' payload)) rnd0 uu0"

text \<open>What the obstacle loop makes of one obstacle at speed \<open>sp\<close>: recycled with two
  consecutive draws of \<^verbatim>\<open>Math.random()\<close>, or advanced.\<close>

definition moved :: "(nat \<Rightarrow> real) \<Rightarrow> real \<Rightarrow> obstacle \<Rightarrow> obstacle \<Rightarrow> bool" where
  "moved rnd sp ob ob' =
     (if 6 < o_z ob + sp
      then (\<exists>n. ob' = ob\<lparr>o_z := - (160 + rnd n * 80),
                          o_x := LANE_X_at \<lfloor>rnd (n + 1) * real (length LANE_X)\<rfloor>\<rparr>)
      else ob' = ob\<lparr>o_z := o_z ob + sp\<rparr>)"



definition join_msg :: "string \<Rightarrow> string \<Rightarrow> event" where
  "join_msg rk pk = Message 0 (Some (msg_of rk pk ''join'' join_payload)) rnd0 uu0"

text \<open>One open connection that has not joined, and no room.\<close>

definition connected :: state where
  "connected = \<lparr>rooms = [],
     clients = [(0, \<lparr>readyState = OPEN, roomId = JUndefined, playerId = JUndefined\<rparr>)]\<rparr>"


text \<open>The time of every room of the store is not negative.\<close>

definition times_nonneg :: "state \<Rightarrow> bool" where
  "times_nonneg s = (\<forall>k r. map_of (rooms s) k = Some r \<longrightarrow> 0 \<le> room_t r)"

section \<open>Basic facts\<close>

lemma fld_set_fld: "fld (set_fld k v p) k' = (if k' = k then v else fld p k')"
  by (simp add: fld_def set_fld_def update_conv')

lemma list_all_update2:
  "list_all (\<lambda>(k, v). P k v) al \<Longrightarrow> P k v \<Longrightarrow> list_all (\<lambda>(k, v). P k v) (AList.update k v al)"
  by (induction al) auto

lemma list_all_map_of:
  "list_all (\<lambda>(k, v). P v) al \<Longrightarrow> map_of al k = Some v \<Longrightarrow> P v"
  by (induction al) (auto split: if_splits)

lemma all_players_put_room:
  "all_players P s \<Longrightarrow> list_all (\<lambda>(pk, p). P p) (players r) \<Longrightarrow> all_players P (put_room k r s)"
  unfolding all_players_def put_room_def
  by (simp add: list_all_update2[where P="\<lambda>rk r. list_all (\<lambda>(pk, p). P p) (players r)"])

lemma all_players_room:
  "all_players P s \<Longrightarrow> map_of (rooms s) k = Some r \<Longrightarrow> list_all (\<lambda>(pk, p). P p) (players r)"
  unfolding all_players_def
  by (drule list_all_map_of[where P="\<lambda>r. list_all (\<lambda>(pk, p). P p) (players r)"]) auto


lemma rooms_put_room: "map_of (rooms (put_room k r s)) k' = (if k' = k then Some r else map_of (rooms s) k')"
  by (simp add: put_room_def update_conv')

lemma clients_put_room: "clients (put_room k r s) = clients s"
  by (simp add: put_room_def)

lemma put_room_twice: "put_room k r (put_room k r' s) = put_room k r s"
  by (simp add: put_room_def)

lemma player_at_put_room:
  "player_at (put_room k r s) rk pk = (if rk = k then map_of (players r) pk else player_at s rk pk)"
  by (simp add: player_at_def rooms_put_room)

lemma on_message_input:
  assumes "\<not> nullish data" "get_prop data ''action'' = JStr ''input''"
  shows "on_message cv rnd uu ws (Some data) s =
     input_case cv (get_prop data ''roomId'') (get_prop data ''playerId'') (get_prop data ''payload'')
       (the_room cv (get_prop data ''roomId'') s)
       (put_room (tostr cv (get_prop data ''roomId'')) (the_room cv (get_prop data ''roomId'') s) s)"
  using assms by (simp add: on_message_def Let_def strict_eq_def the_room_def)

lemma the_room_players:
  "all_players P s \<Longrightarrow> list_all (\<lambda>(pk, p). P p) (players (the_room cv rid s))"
  by (auto simp: the_room_def fresh_room_def dest: all_players_room split: option.splits)

lemma all_players_ensure:
  "all_players P s \<Longrightarrow> all_players P (put_room (tostr cv rid) (the_room cv rid s) s)"
  by (simp add: all_players_put_room the_room_players)

lemma lane_ok_left: "lane_ok p \<Longrightarrow>
  lane_ok (set_fld ''laneTarget'' (JNum (Math_max (Fin 0) (nsub (tonum cv (fld p ''laneTarget'')) (Fin 1)))) p)"
  by (auto simp: lane_ok_def fld_set_fld)

lemma lane_ok_right: "lane_ok p \<Longrightarrow>
  lane_ok (set_fld ''laneTarget'' (JNum (Math_min (Fin (real (length LANE_X) - 1))
      (tonum cv (js_add cv (fld p ''laneTarget'') (JNum (Fin 1)))))) p)"
  by (auto simp: lane_ok_def fld_set_fld js_add_def LANE_X_def)

lemma list_all_update:
  "list_all (\<lambda>(k, v). P v) al \<Longrightarrow> P v \<Longrightarrow> list_all (\<lambda>(k, v). P v) (AList.update k v al)"
  by (induction al) auto

subsection \<open>The \<^verbatim>\<open>input\<close> case\<close>

lemma input_case_lane_ok:
  assumes "all_players lane_ok s" "list_all (\<lambda>(pk, p). lane_ok p) (players r)"
  shows "all_players lane_ok (fst (input_case cv rid pid payload r s))"
proof (cases "map_of (players r) (tostr cv pid)")
  case None
  then show ?thesis using assms by (simp add: input_case_def)
next
  case (Some p)
  have "lane_ok p" by (rule list_all_map_of[where P=lane_ok, OF assms(2) Some])
  then show ?thesis using assms Some
    by (auto simp: input_case_def Let_def intro!: all_players_put_room list_all_update
        lane_ok_left lane_ok_right)
qed

lemma input_case_sent: "fst (snd (input_case cv rid pid payload r s)) = []"
  by (simp add: input_case_def Let_def split: option.splits)

lemma player_at_room: "map_of (rooms s) k = Some r \<Longrightarrow> player_at s k pk = map_of (players r) pk"
  by (simp add: player_at_def)

lemma input_case_cases:
  "(\<exists>err. input_case cv rid pid payload r s = (s, [], err)) \<or>
   (\<exists>p v. map_of (players r) (tostr cv pid) = Some p \<and> is_alive p \<and>
      input_case cv rid pid payload r s =
        (put_room (tostr cv rid)
           (r\<lparr>players := AList.update (tostr cv pid) (set_fld ''laneTarget'' v p) (players r)\<rparr>) s,
         [], False))"
  by (auto simp: input_case_def Let_def split: option.splits)

lemma input_case_field:
  assumes "f \<noteq> ''laneTarget''" "map_of (rooms s) (tostr cv rid) = Some r"
  shows "field_at (fst (input_case cv rid pid payload r s)) rk pk f = field_at s rk pk f"
proof -
  consider (same) err where "input_case cv rid pid payload r s = (s, [], err)"
    | (upd) p v where "map_of (players r) (tostr cv pid) = Some p"
        "input_case cv rid pid payload r s =
          (put_room (tostr cv rid)
           (r\<lparr>players := AList.update (tostr cv pid) (set_fld ''laneTarget'' v p) (players r)\<rparr>) s,
          [], False)"
    using input_case_cases[of cv rid pid payload r s] by blast
  then show ?thesis
  proof cases
    case same
    then show ?thesis by simp
  next
    case upd
    then show ?thesis using assms
      by (simp add: field_at_def player_at_put_room update_conv' fld_set_fld player_at_room)
  qed
qed

lemma step_Message:
  "step cv (Message ws msg rnd uu) s =
     (fst (on_message cv rnd uu ws msg s), fst (snd (on_message cv rnd uu ws msg s)))"
  by (simp add: split_def Let_def)

lemma input_step_lane_ok:
  assumes "lane_input e" "all_players lane_ok s"
  shows "all_players lane_ok (fst (step cv e s))"
proof (cases e)
  case (Message ws msg rnd uu)
  then obtain data where d: "msg = Some data" "\<not> nullish data" "get_prop data ''action'' = JStr ''input''"
    using assms(1) by (cases msg) (auto simp: lane_input_def)
  show ?thesis using assms(2) Message d
    by (simp add: on_message_input step_Message input_case_lane_ok all_players_ensure the_room_players del: step.simps)
qed (use assms in \<open>auto simp: lane_input_def\<close>)

lemma ensure_room_lookup:
  "map_of (rooms (put_room (tostr cv rid) (the_room cv rid s) s)) (tostr cv rid) = Some (the_room cv rid s)"
  by (simp add: rooms_put_room)

lemma player_at_ensure:
  "player_at (put_room (tostr cv rid) (the_room cv rid s) s) rk pk = player_at s rk pk"
  by (auto simp: player_at_def rooms_put_room the_room_def fresh_room_def split: option.splits)

lemma input_step_sent:
  assumes "lane_input e" shows "snd (step cv e s) = []"
proof (cases e)
  case (Message ws msg rnd uu)
  then obtain data where d: "msg = Some data" "\<not> nullish data" "get_prop data ''action'' = JStr ''input''"
    using assms(1) by (cases msg) (auto simp: lane_input_def)
  show ?thesis using Message d
    by (simp add: on_message_input step_Message input_case_sent del: step.simps)
qed (use assms in \<open>auto simp: lane_input_def\<close>)

lemma input_step_field:
  assumes "lane_input e" "f \<noteq> ''laneTarget''"
  shows "field_at (fst (step cv e s)) rk pk f = field_at s rk pk f"
proof (cases e)
  case (Message ws msg rnd uu)
  then obtain data where d: "msg = Some data" "\<not> nullish data" "get_prop data ''action'' = JStr ''input''"
    using assms(1) by (cases msg) (auto simp: lane_input_def)
  show ?thesis using Message d assms(2)
    by (simp add: on_message_input step_Message input_case_field ensure_room_lookup del: step.simps)
       (simp add: field_at_def player_at_ensure)
qed (use assms in \<open>auto simp: lane_input_def\<close>)


lemma input_case_moves:
  "(\<exists>err. input_case cv rid pid payload r s = (s, [], err)) \<or>
   (\<exists>p v. map_of (players r) (tostr cv pid) = Some p \<and> is_alive p \<and>
      (v = JNum (Math_max (Fin 0) (nsub (tonum cv (fld p ''laneTarget'')) (Fin 1)))
       \<or> v = JNum (Math_min (Fin (real (length LANE_X) - 1))
                 (tonum cv (js_add cv (fld p ''laneTarget'') (JNum (Fin 1)))))) \<and>
      input_case cv rid pid payload r s =
        (put_room (tostr cv rid)
           (r\<lparr>players := AList.update (tostr cv pid) (set_fld ''laneTarget'' v p) (players r)\<rparr>) s,
         [], False))"
  by (auto simp: input_case_def Let_def split: option.splits)

lemma input_case_player_lane:
  assumes "map_of (rooms s) (tostr cv rid) = Some r" "player_at s rk pk = Some p" "lane_ok p"
  shows "\<exists>p'. player_at (fst (input_case cv rid pid payload r s)) rk pk = Some p' \<and> lane_ok p'"
proof -
  consider (same) err where "input_case cv rid pid payload r s = (s, [], err)"
    | (upd) q v where "map_of (players r) (tostr cv pid) = Some q"
        "v = JNum (Math_max (Fin 0) (nsub (tonum cv (fld q ''laneTarget'')) (Fin 1)))
         \<or> v = JNum (Math_min (Fin (real (length LANE_X) - 1))
                   (tonum cv (js_add cv (fld q ''laneTarget'') (JNum (Fin 1)))))"
        "input_case cv rid pid payload r s =
          (put_room (tostr cv rid)
           (r\<lparr>players := AList.update (tostr cv pid) (set_fld ''laneTarget'' v q) (players r)\<rparr>) s,
          [], False)"
    using input_case_moves[of cv rid pid payload r s] by blast
  then show ?thesis
  proof cases
    case same
    then show ?thesis using assms by simp
  next
    case upd
    show ?thesis
    proof (cases "rk = tostr cv rid \<and> pk = tostr cv pid")
      case True
      then have "q = p" using assms(1,2) upd(1) by (simp add: player_at_room)
      then have "lane_ok (set_fld ''laneTarget'' v q)"
        using assms(3) upd(2) lane_ok_left[of p cv] lane_ok_right[of p cv] by auto
      then show ?thesis using True upd(3) by (simp add: player_at_put_room update_conv')
    next
      case False
      then show ?thesis using assms upd(3)
        by (auto simp: player_at_put_room update_conv' player_at_room)
    qed
  qed
qed

lemma input_step_player_lane:
  assumes "lane_input e" "player_at s rk pk = Some p" "lane_ok p"
  shows "\<exists>p'. player_at (fst (step cv e s)) rk pk = Some p' \<and> lane_ok p'"
proof (cases e)
  case (Message ws msg rnd uu)
  then obtain data where d: "msg = Some data" "\<not> nullish data" "get_prop data ''action'' = JStr ''input''"
    using assms(1) by (cases msg) (auto simp: lane_input_def)
  let ?rid = "get_prop data ''roomId''"
  let ?s1 = "put_room (tostr cv ?rid) (the_room cv ?rid s) s"
  have p1: "player_at ?s1 rk pk = Some p" using assms(2) by (simp add: player_at_ensure)
  show ?thesis
    using Message d input_case_player_lane[OF ensure_room_lookup p1 assms(3)]
    by (simp add: on_message_input step_Message del: step.simps)
qed (use assms in \<open>auto simp: lane_input_def\<close>)

lemma run_player_lane:
  assumes "list_all lane_input evs" "player_at s rk pk = Some p" "lane_ok p"
  shows "\<exists>p'. player_at (fst (run cv evs s)) rk pk = Some p' \<and> lane_ok p'"
  using assms
proof (induction evs arbitrary: s p)
  case Nil
  then show ?case by simp
next
  case (Cons e es)
  have e: "lane_input e" and es: "list_all lane_input es" using Cons.prems(1) by simp_all
  obtain p1 where p1: "player_at (fst (step cv e s)) rk pk = Some p1" "lane_ok p1"
    using input_step_player_lane[OF e Cons.prems(2,3)] by blast
  from Cons.IH[OF es p1] show ?case by (simp add: split_def Let_def del: step.simps)
qed

lemma run_inputs_quiet:
  assumes "list_all lane_input evs"
  shows "snd (run cv evs s) = []
     \<and> (\<forall>rk pk. field_at (fst (run cv evs s)) rk pk ''laneCurrent'' = field_at s rk pk ''laneCurrent'')"
  using assms
proof (induction evs arbitrary: s)
  case Nil
  then show ?case by simp
next
  case (Cons e es)
  have e: "lane_input e" and es: "list_all lane_input es" using Cons.prems(1) by simp_all
  let ?s1 = "fst (step cv e s)"
  have out1: "snd (step cv e s) = []" using e by (rule input_step_sent)
  have lc1: "field_at ?s1 rk pk ''laneCurrent'' = field_at s rk pk ''laneCurrent''" for rk pk
    using e by (simp add: input_step_field)
  from Cons.IH[OF es] show ?case using out1 lc1
    by (simp add: split_def Let_def del: step.simps)
qed

lemma input_case_left:
  assumes "get_prop payload ''input'' = JStr ''left''" "map_of (rooms s) (tostr cv rid) = Some r"
    "field_at s rk pk ''laneTarget'' = Some (JNum (Fin 0))"
  shows "field_at (fst (input_case cv rid pid payload r s)) rk pk ''laneTarget'' = Some (JNum (Fin 0))"
proof (cases "map_of (players r) (tostr cv pid)")
  case None
  then show ?thesis using assms by (simp add: input_case_def)
next
  case (Some p)
  show ?thesis
  proof (cases "rk = tostr cv rid \<and> pk = tostr cv pid")
    case True
    then have "fld p ''laneTarget'' = JNum (Fin 0)"
      using assms(2,3) Some by (simp add: field_at_def player_at_room)
    then show ?thesis using assms Some True
      by (simp add: input_case_def Let_def strict_eq_def field_at_def player_at_put_room
          update_conv' fld_set_fld)
  next
    case False
    then show ?thesis using assms Some
      by (auto simp: input_case_def Let_def strict_eq_def field_at_def player_at_put_room
          update_conv' player_at_room)
  qed
qed

lemma input_case_right:
  assumes "get_prop payload ''input'' = JStr ''right''" "map_of (rooms s) (tostr cv rid) = Some r"
    "field_at s rk pk ''laneTarget'' = Some (JNum (Fin 2))"
  shows "field_at (fst (input_case cv rid pid payload r s)) rk pk ''laneTarget'' = Some (JNum (Fin 2))"
proof (cases "map_of (players r) (tostr cv pid)")
  case None
  then show ?thesis using assms by (simp add: input_case_def)
next
  case (Some p)
  show ?thesis
  proof (cases "rk = tostr cv rid \<and> pk = tostr cv pid")
    case True
    then have "fld p ''laneTarget'' = JNum (Fin 2)"
      using assms(2,3) Some by (simp add: field_at_def player_at_room)
    then show ?thesis using assms Some True
      by (simp add: input_case_def Let_def strict_eq_def field_at_def player_at_put_room
          update_conv' fld_set_fld js_add_def LANE_X_def)
  next
    case False
    then show ?thesis using assms Some
      by (auto simp: input_case_def Let_def strict_eq_def field_at_def player_at_put_room
          update_conv' player_at_room)
  qed
qed

lemma field_at_ensure:
  "field_at (put_room (tostr cv rid) (the_room cv rid s) s) rk pk f = field_at s rk pk f"
  by (simp add: field_at_def player_at_ensure)

lemma input_step_clamp:
  assumes "input_dir e d" "field_at s rk pk ''laneTarget'' = Some (JNum (Fin b))"
    "d = ''left'' \<and> b = 0 \<or> d = ''right'' \<and> b = 2"
  shows "field_at (fst (step cv e s)) rk pk ''laneTarget'' = Some (JNum (Fin b))"
proof (cases e)
  case (Message ws msg rnd uu)
  then obtain data where d: "msg = Some data" "\<not> nullish data" "get_prop data ''action'' = JStr ''input''"
     "get_prop (get_prop data ''payload'') ''input'' = JStr d"
    using assms(1) by (cases msg) auto
  show ?thesis using Message d assms(2,3)
    by (auto simp add: on_message_input step_Message ensure_room_lookup field_at_ensure
          input_case_left input_case_right simp del: step.simps)
qed (use assms in auto)

section \<open>Lane inputs\<close>

text \<open>
  Claim C4. Along every sequence of \<^verbatim>\<open>input\<close> messages with payload \<^verbatim>\<open>left\<close> or
  \<^verbatim>\<open>right\<close> (from any connections, to any rooms and players), every player whose
  \<open>laneTarget\<close> is an index of \<open>LANE_X\<close>, that is 0, 1 or 2, is still there with a
  \<open>laneTarget\<close> that is one; nothing is sent; no player's \<open>laneCurrent\<close> changes; a
  \<^verbatim>\<open>left\<close> leaves a \<open>laneTarget\<close> of 0 at 0 and a \<^verbatim>\<open>right\<close> leaves a \<open>laneTarget\<close>
  of \<open>length LANE_X - 1\<close> there: the index is clamped, not wrapped.
\<close>

theorem laneTarget_clamped:
  assumes "list_all lane_input evs"
  shows "(\<forall>rk pk p. player_at s rk pk = Some p \<and> lane_ok p
             \<longrightarrow> (\<exists>p'. player_at (fst (run cv evs s)) rk pk = Some p' \<and> lane_ok p'))
     \<and> snd (run cv evs s) = []
     \<and> (\<forall>rk pk. field_at (fst (run cv evs s)) rk pk ''laneCurrent'' = field_at s rk pk ''laneCurrent'')
     \<and> (\<forall>e s0 rk pk. input_dir e ''left'' \<and> field_at s0 rk pk ''laneTarget'' = Some (JNum (Fin 0))
           \<longrightarrow> field_at (fst (step cv e s0)) rk pk ''laneTarget'' = Some (JNum (Fin 0)))
     \<and> (\<forall>e s0 rk pk. input_dir e ''right''
             \<and> field_at s0 rk pk ''laneTarget'' = Some (JNum (Fin (real (length LANE_X) - 1)))
           \<longrightarrow> field_at (fst (step cv e s0)) rk pk ''laneTarget''
                = Some (JNum (Fin (real (length LANE_X) - 1))))"
proof -
  have "real (length LANE_X) - 1 = 2" by (simp add: LANE_X_def)
  then show ?thesis
    using run_player_lane[OF assms] run_inputs_quiet[OF assms]
      input_step_clamp[where d="''left''" and b=0]
      input_step_clamp[where d="''right''" and b=2]
    by (simp del: step.simps)
qed

text \<open>The state \<open>lobby\<close> is the one a connection and a \<^verbatim>\<open>join\<close> produce.\<close>

lemma lobby_reached:
  "run cv0 [Connection 0, Message 0 (Some (msg_of ''R'' ''A'' ''join'' join_payload)) rnd0 uu0] init
    = (lobby, [(0, StateMsg (JStr ''R'') [(''A'', new_player join_payload)])])"
  by (simp add: init_def on_connection_def on_message_def msg_of_def strict_eq_def join_case_def
      join_payload_def bind_client_def put_room_def fresh_room_def lobby_def broadcastToRoom_def
      receives_def Let_def)

theorem laneTarget_clamped_witness:
  "list_all lane_input [input_msg ''R'' ''A'' ''left'', input_msg ''R'' ''A'' ''left'', input_msg ''R'' ''A'' ''right'']
   \<and> player_at lobby ''R'' ''A'' = Some (new_player join_payload) \<and> lane_ok (new_player join_payload)
   \<and> (\<exists>p'. player_at (fst (run cv0 [input_msg ''R'' ''A'' ''left'', input_msg ''R'' ''A'' ''left'', input_msg ''R'' ''A'' ''right''] lobby)) ''R'' ''A'' = Some p' \<and> lane_ok p')
   \<and> snd (run cv0 [input_msg ''R'' ''A'' ''left'', input_msg ''R'' ''A'' ''left'', input_msg ''R'' ''A'' ''right''] lobby) = []
   \<and> input_dir (input_msg ''R'' ''A'' ''left'') ''left''
   \<and> field_at (fst (step cv0 (input_msg ''R'' ''A'' ''left'') lobby)) ''R'' ''A'' ''laneTarget''
        = Some (JNum (Fin 0))
   \<and> field_at (fst (step cv0 (input_msg ''R'' ''A'' ''left'')
                 (fst (step cv0 (input_msg ''R'' ''A'' ''left'') lobby)))) ''R'' ''A'' ''laneTarget''
        = Some (JNum (Fin 0))"
proof -
  have h1: "list_all lane_input [input_msg ''R'' ''A'' ''left'', input_msg ''R'' ''A'' ''left'', input_msg ''R'' ''A'' ''right'']"
    by (simp add: lane_input_def input_msg_def msg_of_def)
  have h2: "player_at lobby ''R'' ''A'' = Some (new_player join_payload)"
    by (simp add: player_at_def lobby_def)
  have h3: "lane_ok (new_player join_payload)"
    by (simp add: lane_ok_def new_player_def fld_def)
  have h4: "input_dir (input_msg ''R'' ''A'' ''left'') ''left''"
    by (simp add: input_msg_def msg_of_def)
  have h5: "field_at (fst (step cv0 (input_msg ''R'' ''A'' ''left'') lobby)) ''R'' ''A'' ''laneTarget''
        = Some (JNum (Fin 0))"
    by (simp add: input_msg_def msg_of_def on_message_def lobby_def strict_eq_def input_case_def
        Let_def put_room_def is_alive_def new_player_def fld_def set_fld_def field_at_def
        player_at_def fresh_room_def)
  note t = laneTarget_clamped[OF h1, of lobby cv0]
  have c: "field_at (fst (step cv0 (input_msg ''R'' ''A'' ''left'')
                 (fst (step cv0 (input_msg ''R'' ''A'' ''left'') lobby)))) ''R'' ''A'' ''laneTarget''
        = Some (JNum (Fin 0))"
    using t h4 h5 by blast
  show ?thesis using h1 h2 h3 h4 h5 c t by blast
qed

lemma example_lanes:
  "field_at (fst (run cv0 [input_msg ''R'' ''A'' ''left'', input_msg ''R'' ''A'' ''left'', input_msg ''R'' ''A'' ''right''] lobby)) ''R'' ''A'' ''laneTarget'' = Some (JNum (Fin 1))"
  by (simp add: input_msg_def msg_of_def on_message_def lobby_def strict_eq_def input_case_def
      Let_def put_room_def is_alive_def new_player_def fld_def set_fld_def field_at_def player_at_def
      js_add_def LANE_X_def)

section \<open>Delivery scope\<close>

lemma broadcastToRoom_scope:
  "(w, m) \<in> set (broadcastToRoom s rid data) \<longleftrightarrow>
     m = data \<and> (\<exists>c. (w, c) \<in> set (clients s) \<and> readyState c = OPEN \<and> strict_eq (roomId c) rid)"
  by (auto simp: broadcastToRoom_def receives_def)

text \<open>
  Claim C8. Every outbound message scoped to a room reaches exactly the open connections
  bound to that room. The room server's \<open>broadcastToRoom\<close> sends to exactly the open
  connections whose \<open>roomId\<close> is strictly equal to the room id of the message
  (\<open>broadcastToRoom_scope\<close>). The handler of the first document does not: its comment
  says \<^verbatim>\<open>broadcast updated room state to everyone in room\<close>, and it sends to every
  open connection of the server. Below, connection 0 joins room \<open>A\<close> and connection 1,
  which has sent nothing, receives the snapshot of room \<open>A\<close> as well.
\<close>

theorem v1_snapshot_reaches_every_connection:
  "snd (on_message_v1 cv0 (Some (msg_of ''A'' ''p1'' ''join'' join_payload))
      \<lparr>rooms_v1 = [], clients_v1 = [(0, OPEN), (1, OPEN)]\<rparr>)
   = ([(0, StateMsg (JStr ''A'') [(''p1'', new_player_v1 join_payload)]),
       (1, StateMsg (JStr ''A'') [(''p1'', new_player_v1 join_payload)])], False)"
  by (simp add: on_message_v1_def msg_of_def strict_eq_def send_all_v1_def Let_def join_payload_def)

section \<open>The tick\<close>

lemma broadcastToRoom_clients:
  "clients s = clients s' \<Longrightarrow> broadcastToRoom s rid data = broadcastToRoom s' rid data"
  by (simp add: broadcastToRoom_def)

lemma filter_empty_list_ex: "(length (filter P xs) = 0) = (\<not> list_ex P xs)"
  by (induction xs) auto

lemma stopGame_running:
  assumes "map_of (rooms s) (tostr cv rid) = Some r" "running r"
  shows "stopGame cv rid s =
     (put_room (tostr cv rid) (r\<lparr>gameInterval := False, running := False\<rparr>) s,
      broadcastToRoom s rid (GameOverMsg rid))"
  using assms
  by (simp add: stopGame_def Let_def broadcastToRoom_clients[OF clients_put_room])

lemma stopGame_idle:
  assumes "map_of (rooms s) (tostr cv rid) = None \<or>
           (\<exists>r. map_of (rooms s) (tostr cv rid) = Some r \<and> \<not> running r)"
  shows "stopGame cv rid s = (s, [])"
  using assms by (auto simp: stopGame_def)

lemma gameLoop_idle:
  assumes "map_of (rooms s) (tostr cv rid) = None \<or>
           (\<exists>r. map_of (rooms s) (tostr cv rid) = Some r \<and> \<not> running r)"
  shows "gameLoop cv rnd rid s = (s, [])"
  using assms by (auto simp: gameLoop_def)

lemma gameLoop_running:
  assumes "map_of (rooms s) (tostr cv rid) = Some r" "running r"
  shows "gameLoop cv rnd rid s =
     (if round_over r
      then (put_room (tostr cv rid) ((tick_room cv rnd r)\<lparr>gameInterval := False, running := False\<rparr>) s,
            broadcastToRoom s rid (GameOverMsg rid))
      else (put_room (tostr cv rid) (tick_room cv rnd r) s,
            broadcastToRoom s rid
              (GameStateMsg rid (tick_players cv rnd r) (tick_obstacles rnd r)
                 \<lfloor>score (tick_room cv rnd r)\<rfloor> True)))"
proof -
  let ?s' = "put_room (tostr cv rid) (tick_room cv rnd r) s"
  have look: "map_of (rooms ?s') (tostr cv rid) = Some (tick_room cv rnd r)"
    by (simp add: rooms_put_room)
  have run': "running (tick_room cv rnd r)" using assms(2) by (simp add: tick_room_def)
  have stop: "stopGame cv rid ?s' =
     (put_room (tostr cv rid) ((tick_room cv rnd r)\<lparr>gameInterval := False, running := False\<rparr>) s,
      broadcastToRoom s rid (GameOverMsg rid))"
    by (simp add: stopGame_running[OF look run'] put_room_twice
        broadcastToRoom_clients[OF clients_put_room])
  have len: "(0 < length (tick_players cv rnd r)) = (players r \<noteq> [])"
    by (simp add: tick_players_def)
  have gl: "gameLoop cv rnd rid s =
     (if length (filter (\<lambda>(k, p). is_alive p) (players r)) = 0 \<and> 0 < length (tick_players cv rnd r)
      then stopGame cv rid ?s'
      else (?s', broadcastToRoom ?s' rid
              (GameStateMsg rid (tick_players cv rnd r) (tick_obstacles rnd r)
                 \<lfloor>score (tick_room cv rnd r)\<rfloor> (running (tick_room cv rnd r)))))"
    unfolding gameLoop_def Let_def tick_room_def tick_players_def tick_obstacles_def tick_speed_def
    using assms by simp
  show ?thesis
    unfolding gl filter_empty_list_ex len stop round_over_def
    using run' by (simp add: broadcastToRoom_clients[OF clients_put_room])
qed








section \<open>Dead players\<close>



section \<open>Evaluating the examples\<close>

lemmas example_defs = arena_def wreck_def dead_player_def lobby_def new_player_def join_payload_def
  rnd0_def uu0_def cv0_def msg_of_def input_msg_def init_def fresh_room_def

lemmas js_defs = fld_def set_fld_def js_add_def strict_eq_def Object_assign_def

lemmas const_defs = TICK_TIME_def TICK_RATE_def LANE_X_def LANE_X_at_def LANE_X_key_def
  PLAYER_START_Y_def PLAYER_START_Z_def OBSTACLE_BOUNDS_def speed_at_def

lemmas engine_defs = gameLoop_def stopGame_def startGame_def update_obstacles_def
  update_player_def smooth_player_def collides_def is_alive_def put_room_def broadcastToRoom_def
  receives_def spawnObstacle_def reset_player_def

lemmas handler_defs = on_message_def join_case_def update_case_def input_case_def
  merge_update_def start_condition_def bind_client_def on_close_def on_connection_def




section \<open>End of a round\<close>












section \<open>Starting a round\<close>

lemma on_message_update:
  assumes "\<not> nullish data" "get_prop data ''action'' = JStr ''update''"
  shows "on_message cv rnd uu ws (Some data) s =
     update_case cv rnd uu (get_prop data ''roomId'') (get_prop data ''playerId'')
       (get_prop data ''payload'') (the_room cv (get_prop data ''roomId'') s)
       (put_room (tostr cv (get_prop data ''roomId'')) (the_room cv (get_prop data ''roomId'') s) s)"
  using assms by (simp add: on_message_def Let_def strict_eq_def the_room_def)


lemma running_merge_update: "running (merge_update cv pid payload r) = running r"
  by (simp add: merge_update_def split: option.splits)

lemma room_running_the_room: "room_running s (tostr cv rid) = running (the_room cv rid s)"
  by (simp add: room_running_def the_room_def fresh_room_def split: option.splits)

lemma room_running_put_room:
  "room_running (put_room k r s) k' = (if k' = k then running r else room_running s k')"
  by (simp add: room_running_def rooms_put_room)

lemma running_spawnObstacle: "running (spawnObstacle rnd uu n r z) = running r"
  by (simp add: spawnObstacle_def Let_def)

lemma startGame_starts:
  assumes "map_of (rooms s) (tostr cv rid) = Some r" "\<not> running r"
  shows "room_running (startGame cv rnd uu rid s) (tostr cv rid)"
  using assms
  by (simp add: startGame_def Let_def room_running_put_room running_spawnObstacle)

lemma start_condition_ready:
  "start_condition r = (everyone_ready r \<and> \<not> running r)"
  by (auto simp: start_condition_def everyone_ready_def)

lemma update_case_result:
  "fst (update_case cv rnd uu rid pid payload r s) =
     (let m = put_room (tostr cv rid) (merge_update cv pid payload r) s
      in if start_condition (merge_update cv pid payload r) then startGame cv rnd uu rid m else m)"
  by (simp add: update_case_def Let_def)

text \<open>
  Claim C1. Processing an \<^verbatim>\<open>update\<close> message calls \<open>startGame\<close> exactly when, after
  the merge, the player mapping of the room is non-empty, every player's \<open>ready\<close> is
  true (truthy) and the room is not running; the room then goes from not running to
  running, and in no other case. If one player's \<open>ready\<close> is false after the merge,
  the state is the merged state and \<open>startGame\<close> is not called.
\<close>

theorem update_starts_round:
  assumes "\<not> nullish data" and "get_prop data ''action'' = JStr ''update''"
  shows "let rid = get_prop data ''roomId''; k = tostr cv rid;
             r' = merged_room cv data s; m = put_room k r' s;
             s' = fst (on_message cv rnd uu ws (Some data) s);
             go = (everyone_ready r' \<and> \<not> room_running s k)
         in s' = (if go then startGame cv rnd uu rid m else m)
          \<and> (go \<longleftrightarrow> room_running s' k \<and> \<not> room_running s k)
          \<and> (list_ex (\<lambda>(pk, p). \<not> truthy (fld p ''ready'')) (players r')
                \<longrightarrow> s' = m \<and> (room_running s' k \<longleftrightarrow> room_running s k))"
proof -
  let ?rid = "get_prop data ''roomId''"
  let ?k = "tostr cv ?rid"
  let ?r' = "merged_room cv data s"
  let ?m = "put_room ?k ?r' s"
  let ?s' = "fst (on_message cv rnd uu ws (Some data) s)"
  define go where "go \<longleftrightarrow> everyone_ready ?r' \<and> \<not> room_running s ?k"
  have run_r': "running ?r' = room_running s ?k"
    by (simp add: merged_room_def running_merge_update room_running_the_room)
  have cond: "start_condition ?r' = go"
    by (simp add: start_condition_ready run_r' go_def)
  have res: "?s' = (if go then startGame cv rnd uu ?rid ?m else ?m)"
    using cond
    by (simp add: on_message_update[OF assms] update_case_result put_room_twice
        merged_room_def Let_def)
  have look: "map_of (rooms ?m) ?k = Some ?r'" by (simp add: rooms_put_room)
  have idle: "room_running ?m ?k = room_running s ?k"
    using run_r' by (simp add: room_running_put_room)
  have unready: "list_ex (\<lambda>(pk, p). \<not> truthy (fld p ''ready'')) (players ?r') \<Longrightarrow> \<not> go"
    by (auto simp: go_def everyone_ready_def list_all_iff list_ex_iff)
  have main: "?s' = (if go then startGame cv rnd uu ?rid ?m else ?m)
      \<and> (go \<longleftrightarrow> room_running ?s' ?k \<and> \<not> room_running s ?k)
      \<and> (list_ex (\<lambda>(pk, p). \<not> truthy (fld p ''ready'')) (players ?r')
            \<longrightarrow> ?s' = ?m \<and> (room_running ?s' ?k \<longleftrightarrow> room_running s ?k))"
  proof (cases go)
    case True
    then have idle0: "\<not> room_running s ?k" and "\<not> running ?r'"
      using run_r' by (simp_all add: go_def)
    then have "room_running (startGame cv rnd uu ?rid ?m) ?k"
      using startGame_starts[OF look] by simp
    moreover have "\<not> list_ex (\<lambda>(pk, p). \<not> truthy (fld p ''ready'')) (players ?r')"
      using unready True by blast
    ultimately show ?thesis using True res idle0 by simp
  next
    case False
    then show ?thesis using res idle by simp
  qed
  show ?thesis unfolding Let_def using main unfolding go_def .
qed

theorem update_starts_round_witness:
  "\<not> nullish (msg_of ''R'' ''A'' ''update'' (JObj [(''ready'', JBool True)]))
   \<and> get_prop (msg_of ''R'' ''A'' ''update'' (JObj [(''ready'', JBool True)])) ''action'' = JStr ''update''
   \<and> everyone_ready (merged_room cv0 (msg_of ''R'' ''A'' ''update'' (JObj [(''ready'', JBool True)])) lobby)
   \<and> \<not> room_running lobby ''R''
   \<and> room_running (fst (on_message cv0 rnd0 uu0 0
         (Some (msg_of ''R'' ''A'' ''update'' (JObj [(''ready'', JBool True)]))) lobby)) ''R''
   \<and> list_ex (\<lambda>(pk, p). \<not> truthy (fld p ''ready''))
        (players (merged_room cv0 (msg_of ''R'' ''A'' ''update'' (JObj [(''color'', JStr ''blue'')])) lobby))
   \<and> \<not> room_running (fst (on_message cv0 rnd0 uu0 0
         (Some (msg_of ''R'' ''A'' ''update'' (JObj [(''color'', JStr ''blue'')]))) lobby)) ''R''"
proof -
  let ?d = "msg_of ''R'' ''A'' ''update'' (JObj [(''ready'', JBool True)])"
  let ?e = "msg_of ''R'' ''A'' ''update'' (JObj [(''color'', JStr ''blue'')])"
  have h1: "\<not> nullish ?d" by (simp add: msg_of_def)
  have h2: "get_prop ?d ''action'' = JStr ''update''" by (simp add: msg_of_def)
  have rid: "get_prop ?d ''roomId'' = JStr ''R''" by (simp add: msg_of_def)
  have h3: "everyone_ready (merged_room cv0 ?d lobby)"
    by (simp add: everyone_ready_def merged_room_def merge_update_def the_room_def example_defs
        js_defs)
  have h4: "\<not> room_running lobby ''R''"
    by (simp add: room_running_def lobby_def fresh_room_def)
  have a: "room_running (fst (on_message cv0 rnd0 uu0 0 (Some ?d) lobby)) ''R''"
    using h3 h4 update_starts_round[OF h1 h2, of cv0 lobby rnd0 uu0 0]
    unfolding Let_def rid tostr.simps by blast
  have e1: "\<not> nullish ?e" by (simp add: msg_of_def)
  have e2: "get_prop ?e ''action'' = JStr ''update''" by (simp add: msg_of_def)
  have erid: "get_prop ?e ''roomId'' = JStr ''R''" by (simp add: msg_of_def)
  have e3: "list_ex (\<lambda>(pk, p). \<not> truthy (fld p ''ready'')) (players (merged_room cv0 ?e lobby))"
    by (simp add: merged_room_def merge_update_def the_room_def example_defs js_defs)
  have b: "\<not> room_running (fst (on_message cv0 rnd0 uu0 0 (Some ?e) lobby)) ''R''"
    using e3 h4 update_starts_round[OF e1 e2, of cv0 lobby rnd0 uu0 0]
    unfolding Let_def erid tostr.simps by blast
  show ?thesis using h1 h2 h3 h4 a e3 b by blast
qed

lemma unready_example:
  "fst (on_message cv0 rnd0 uu0 0
         (Some (msg_of ''R'' ''A'' ''update'' (JObj [(''ready'', JBool False)]))) lobby) = lobby"
  by (simp add: example_defs js_defs handler_defs engine_defs Let_def)

section \<open>Joining a running room\<close>





lemma rooms_bind_client: "rooms (bind_client ws rid pid s) = rooms s"
  by (simp add: bind_client_def)

lemma put_room_bind_client:
  "put_room k r (bind_client ws rid pid s) = bind_client ws rid pid (put_room k r s)"
  by (simp add: put_room_def bind_client_def)





section \<open>Obstacles\<close>

lemma recycle_moved: "list_all2 (moved rnd sp) obs (recycle sp rnd n obs)"
  by (induction obs arbitrary: n) (auto simp: moved_def Let_def)

lemma update_obstacles_moved: "list_all2 (moved rnd sp) obs (update_obstacles sp rnd obs)"
proof -
  have "list_all2 (moved rnd sp) (rev obs) (recycle sp rnd 0 (rev obs))"
    by (rule recycle_moved)
  then have "list_all2 (moved rnd sp) (rev (rev obs)) (rev (recycle sp rnd 0 (rev obs)))"
    by (simp only: list_all2_rev)
  then show ?thesis by (simp add: update_obstacles_def)
qed

lemma lane_draw:
  assumes "0 \<le> u" "u < 1" "j < length LANE_X"
  shows "(LANE_X_at \<lfloor>u * real (length LANE_X)\<rfloor> = JNum (Fin (LANE_X ! j)))
         = (real j / 3 \<le> u \<and> u < (real j + 1) / 3)"
proof -
  have range: "0 \<le> \<lfloor>u * 3\<rfloor>" "\<lfloor>u * 3\<rfloor> < 3"
    using assms(1,2) by (simp_all add: floor_less_iff)
  have eq: "(\<lfloor>u * 3\<rfloor> = int j) = (real j / 3 \<le> u \<and> u < (real j + 1) / 3)"
    by (auto simp: floor_eq_iff field_simps)
  have j: "j = 0 \<or> j = 1 \<or> j = 2" using assms(3) by (auto simp: LANE_X_def)
  have i: "\<lfloor>u * 3\<rfloor> = 0 \<or> \<lfloor>u * 3\<rfloor> = 1 \<or> \<lfloor>u * 3\<rfloor> = 2" using range by linarith
  have "(LANE_X_at \<lfloor>u * 3\<rfloor> = JNum (Fin (LANE_X ! j))) = (\<lfloor>u * 3\<rfloor> = int j)"
    using i j assms(1,2) by (auto simp: LANE_X_at_def LANE_X_def)
  then show ?thesis using eq by (simp add: LANE_X_def)
qed

lemma lane_draw_member:
  assumes "0 \<le> u" "u < 1"
  shows "LANE_X_at \<lfloor>u * real (length LANE_X)\<rfloor> \<in> (\<lambda>x. JNum (Fin x)) ` set LANE_X"
proof -
  have range: "0 \<le> \<lfloor>u * 3\<rfloor>" "\<lfloor>u * 3\<rfloor> < 3"
    using assms(1,2) by (simp_all add: floor_less_iff)
  then have "\<lfloor>u * 3\<rfloor> = 0 \<or> \<lfloor>u * 3\<rfloor> = 1 \<or> \<lfloor>u * 3\<rfloor> = 2" by linarith
  then show ?thesis using assms by (auto simp: LANE_X_at_def LANE_X_def)
qed

lemma tick_speed_pos: "0 \<le> room_t r \<Longrightarrow> 1 / 2 \<le> tick_speed r"
  by (simp add: tick_speed_def speed_at_def TICK_TIME_def TICK_RATE_def min_def)

lemma gameLoop_obstacles:
  assumes "map_of (rooms s) (tostr cv rid) = Some r" "running r"
  shows "\<exists>r'. map_of (rooms (fst (gameLoop cv rnd rid s))) (tostr cv rid) = Some r'
           \<and> obstacles r' = tick_obstacles rnd r"
  by (simp add: gameLoop_running[OF assms] rooms_put_room tick_room_def)

text \<open>
  Claim C3. On a tick of a running room (with \<open>t\<close> not negative, and \<^verbatim>\<open>Math.random()\<close>
  in \<open>[0, 1)\<close>), the obstacle pool keeps its length and every obstacle its place and
  id. An obstacle whose \<open>z\<close> plus the speed of the tick exceeds 6 gets a \<open>z\<close> in
  \<open>[-240, -160]\<close> and an \<open>x\<close> among \<open>LANE_X\<close>, the lane \<open>j\<close> being drawn exactly when
  the random number lies in the \<open>j\<close>-th third of \<open>[0, 1)\<close> (each lane has the same
  share); any other obstacle keeps its \<open>x\<close> and has its \<open>z\<close> advanced by the speed,
  so that \<open>z\<close> does not decrease.
\<close>

theorem obstacles_advance_or_recycle:
  assumes "map_of (rooms s) (tostr cv rid) = Some r" and "running r" and "0 \<le> room_t r"
    and "\<forall>n. 0 \<le> rnd n \<and> rnd n < 1" and "i < length (obstacles r)"
  shows "\<exists>r'. map_of (rooms (fst (gameLoop cv rnd rid s))) (tostr cv rid) = Some r'
     \<and> length (obstacles r') = length (obstacles r)
     \<and> (let ob = obstacles r ! i; ob' = obstacles r' ! i; sp = speed_at (room_t r + TICK_TIME / 1000)
        in o_id ob' = o_id ob \<and> o_y ob' = o_y ob
         \<and> (if 6 < o_z ob + sp
            then o_x ob' \<in> (\<lambda>x. JNum (Fin x)) ` set LANE_X
               \<and> - 240 \<le> o_z ob' \<and> o_z ob' \<le> - 160
               \<and> (\<exists>n. o_z ob' = - (160 + rnd n * 80)
                     \<and> (\<forall>j<length LANE_X. (o_x ob' = JNum (Fin (LANE_X ! j)))
                           = (real j / 3 \<le> rnd (n + 1) \<and> rnd (n + 1) < (real j + 1) / 3)))
            else o_x ob' = o_x ob \<and> o_z ob' = o_z ob + sp \<and> o_z ob \<le> o_z ob'))"
proof -
  obtain r' where r': "map_of (rooms (fst (gameLoop cv rnd rid s))) (tostr cv rid) = Some r'"
      "obstacles r' = tick_obstacles rnd r"
    using gameLoop_obstacles[OF assms(1,2)] by blast
  let ?sp = "speed_at (room_t r + TICK_TIME / 1000)"
  have all: "list_all2 (moved rnd ?sp) (obstacles r) (obstacles r')"
    by (simp add: r'(2) tick_obstacles_def tick_speed_def update_obstacles_moved)
  have len: "length (obstacles r') = length (obstacles r)"
    using all by (simp add: list_all2_lengthD)
  have mv: "moved rnd ?sp (obstacles r ! i) (obstacles r' ! i)"
    using all assms(5) by (rule list_all2_nthD)
  have sp: "1 / 2 \<le> ?sp" using tick_speed_pos[OF assms(3)] by (simp add: tick_speed_def)
  let ?ob = "obstacles r ! i"
  let ?ob' = "obstacles r' ! i"
  have body: "o_id ?ob' = o_id ?ob \<and> o_y ?ob' = o_y ?ob
         \<and> (if 6 < o_z ?ob + ?sp
            then o_x ?ob' \<in> (\<lambda>x. JNum (Fin x)) ` set LANE_X
               \<and> - 240 \<le> o_z ?ob' \<and> o_z ?ob' \<le> - 160
               \<and> (\<exists>n. o_z ?ob' = - (160 + rnd n * 80)
                     \<and> (\<forall>j<length LANE_X. (o_x ?ob' = JNum (Fin (LANE_X ! j)))
                           = (real j / 3 \<le> rnd (n + 1) \<and> rnd (n + 1) < (real j + 1) / 3)))
            else o_x ?ob' = o_x ?ob \<and> o_z ?ob' = o_z ?ob + ?sp \<and> o_z ?ob \<le> o_z ?ob')"
  proof (cases "6 < o_z ?ob + ?sp")
    case True
    then obtain n where n: "?ob' = ?ob\<lparr>o_z := - (160 + rnd n * 80),
        o_x := LANE_X_at \<lfloor>rnd (n + 1) * real (length LANE_X)\<rfloor>\<rparr>"
      using mv by (auto simp: moved_def)
    have u: "0 \<le> rnd n" "rnd n < 1" "0 \<le> rnd (n + 1)" "rnd (n + 1) < 1"
      using assms(4) by simp_all
    have z: "- 240 \<le> o_z ?ob' \<and> o_z ?ob' \<le> - 160" using u(1,2) by (simp add: n)
    have x: "o_x ?ob' \<in> (\<lambda>x. JNum (Fin x)) ` set LANE_X"
      using lane_draw_member[OF u(3,4)] by (simp add: n)
    have d: "\<forall>j<length LANE_X. (o_x ?ob' = JNum (Fin (LANE_X ! j)))
          = (real j / 3 \<le> rnd (n + 1) \<and> rnd (n + 1) < (real j + 1) / 3)"
      using lane_draw[OF u(3,4)] by (simp add: n)
    have "o_z ?ob' = - (160 + rnd n * 80)" by (simp add: n)
    then show ?thesis using True z x d n by auto
  next
    case False
    then have "?ob' = ?ob\<lparr>o_z := o_z ?ob + ?sp\<rparr>" using mv by (simp add: moved_def)
    then show ?thesis using False sp by simp
  qed
  show ?thesis
    using r'(1) len body unfolding Let_def by blast
qed


theorem obstacles_advance_or_recycle_witness:
  "map_of (rooms arena) (tostr cv0 (JStr ''R'')) = Some (the_room cv0 (JStr ''R'') arena)
   \<and> running (the_room cv0 (JStr ''R'') arena)
   \<and> 0 \<le> room_t (the_room cv0 (JStr ''R'') arena)
   \<and> (\<forall>n. 0 \<le> rnd0 n \<and> rnd0 n < 1)
   \<and> 0 < length (obstacles (the_room cv0 (JStr ''R'') arena))
   \<and> (\<exists>r'. map_of (rooms (fst (gameLoop cv0 rnd0 (JStr ''R'') arena))) (tostr cv0 (JStr ''R'')) = Some r'
         \<and> length (obstacles r') = length (obstacles (the_room cv0 (JStr ''R'') arena)))"
proof -
  let ?r = "the_room cv0 (JStr ''R'') arena"
  have h1: "map_of (rooms arena) (tostr cv0 (JStr ''R'')) = Some ?r"
    by (simp add: the_room_def arena_def)
  have h2: "running ?r" by (simp add: the_room_def arena_def)
  have h3: "0 \<le> room_t ?r" by (simp add: the_room_def arena_def)
  have h4: "\<forall>n. 0 \<le> rnd0 n \<and> rnd0 n < 1" by (simp add: rnd0_def)
  have h5: "0 < length (obstacles ?r)" by (simp add: the_room_def arena_def)
  show ?thesis
    using h1 h2 h3 h4 h5 obstacles_advance_or_recycle[OF h1 h2 h3 h4 h5] by blast
qed

lemma recycle_example:
  "update_obstacles (251 / 500) rnd0
      [\<lparr>o_id = ''o1'', o_x = JNum (Fin 4), o_y = 9 / 10, o_z = 59 / 10\<rparr>,
       \<lparr>o_id = ''o2'', o_x = JNum (Fin 4), o_y = 9 / 10, o_z = - 20\<rparr>]
    = [\<lparr>o_id = ''o1'', o_x = JNum (Fin 0), o_y = 9 / 10, o_z = - 200\<rparr>,
       \<lparr>o_id = ''o2'', o_x = JNum (Fin 4), o_y = 9 / 10, o_z = - (9749 / 500)\<rparr>]"
  by (simp add: update_obstacles_def rnd0_def const_defs Let_def)

section \<open>The lane index read by the tick\<close>



lemma all_players_rooms: "rooms s' = rooms s \<Longrightarrow> all_players P s' = all_players P s"
  by (simp add: all_players_def)


lemma list_all_delete: "list_all Q al \<Longrightarrow> list_all Q (AList.delete k al)"
  by (induction al) auto

lemma all_players_delete_room:
  "all_players P s \<Longrightarrow> all_players P (s\<lparr>rooms := AList.delete k (rooms s)\<rparr>)"
  by (simp add: all_players_def list_all_delete)





lemma stopGame_all_players:
  assumes "all_players P s"
  shows "all_players P (fst (stopGame cv rid s))"
proof (cases "map_of (rooms s) (tostr cv rid)")
  case None
  then show ?thesis using assms by (simp add: stopGame_def)
next
  case (Some r)
  then have "list_all (\<lambda>(pk, p). P p) (players r)" using assms by (rule all_players_room[rotated])
  then show ?thesis using assms Some
    by (simp add: stopGame_def Let_def all_players_put_room)
qed


lemma on_close_unbound:
  assumes "map_of (clients s) ws = None
     \<or> (\<exists>c. map_of (clients s) ws = Some c
            \<and> (map_of (rooms s) (tostr cv (roomId c)) = None
                \<or> \<not> (truthy (roomId c) \<and> truthy (playerId c))))"
  shows "on_close cv ws s = (s\<lparr>clients := AList.delete ws (clients s)\<rparr>, [])"
  using assms by (auto simp: on_close_def Let_def split: option.splits)

lemma on_close_bound:
  assumes "map_of (clients s) ws = Some c" "map_of (rooms s) (tostr cv (roomId c)) = Some r"
    "truthy (roomId c)" "truthy (playerId c)"
  shows "on_close cv ws s =
     (let s0 = s\<lparr>clients := AList.delete ws (clients s)\<rparr>;
          ps = AList.delete (tostr cv (playerId c)) (players r)
      in if ps = []
         then (s0\<lparr>rooms := AList.delete (tostr cv (roomId c)) (rooms s)\<rparr>,
               if running r then broadcastToRoom s0 (roomId c) (GameOverMsg (roomId c)) else [])
         else (put_room (tostr cv (roomId c)) (r\<lparr>players := ps\<rparr>) s0,
               broadcastToRoom s0 (roomId c) (StateMsg (roomId c) ps)))"
proof -
  let ?s0 = "s\<lparr>clients := AList.delete ws (clients s)\<rparr>"
  let ?k = "tostr cv (roomId c)"
  let ?ps = "AList.delete (tostr cv (playerId c)) (players r)"
  let ?r' = "r\<lparr>players := ?ps\<rparr>"
  let ?s1 = "put_room ?k ?r' ?s0"
  have look: "map_of (rooms ?s1) ?k = Some ?r'" by (simp add: rooms_put_room)
  have stop: "stopGame cv (roomId c) ?s1 =
      (if running r
       then (put_room ?k (?r'\<lparr>gameInterval := False, running := False\<rparr>) ?s0,
             broadcastToRoom ?s0 (roomId c) (GameOverMsg (roomId c)))
       else (?s1, []))"
  proof (cases "running r")
    case True
    then have "running ?r'" by simp
    then show ?thesis using True
      by (simp add: stopGame_running[OF look] put_room_twice
          broadcastToRoom_clients[OF clients_put_room])
  next
    case False
    then show ?thesis using look by (simp add: stopGame_idle)
  qed
  have del: "(put_room ?k x ?s0)\<lparr>rooms := AList.delete ?k (rooms (put_room ?k x ?s0))\<rparr>
      = ?s0\<lparr>rooms := AList.delete ?k (rooms s)\<rparr>" for x
    by (simp add: put_room_def delete_update_same)
  have "on_close cv ws s =
      (if length ?ps = 0
       then (let (s2, out) = stopGame cv (roomId c) ?s1
             in (s2\<lparr>rooms := AList.delete ?k (rooms s2)\<rparr>, out))
       else (?s1, broadcastToRoom ?s1 (roomId c) (StateMsg (roomId c) ?ps)))"
    using assms by (simp add: on_close_def Let_def)
  then show ?thesis
    unfolding stop Let_def
    by (simp add: del broadcastToRoom_clients[OF clients_put_room] split: if_splits)
qed

















lemma started_example:
  "field_at (fst (run cv0
     [Connection 0, join_msg ''R'' ''A'', update_msg ''R'' ''A'' (JObj [(''ready'', JBool True)]),
      update_msg ''R'' ''A'' (JObj [(''laneTarget'', JNum (Fin 5))])] init)) ''R'' ''A'' ''laneTarget''
   = Some (JNum (Fin 5))"
  by (simp add: join_msg_def update_msg_def example_defs js_defs const_defs handler_defs
      engine_defs Let_def field_at_def player_at_def)


section \<open>Malformed messages\<close>

lemma on_message_cases:
  "on_message cv rnd uu ws (Some data) s =
     (let rid = get_prop data ''roomId''; r = the_room cv rid s; s1 = put_room (tostr cv rid) r s
      in if nullish data then (s, [], True)
         else if get_prop data ''action'' = JStr ''join''
         then join_case cv ws rid (get_prop data ''playerId'') (get_prop data ''payload'') r s1
         else if get_prop data ''action'' = JStr ''update''
         then update_case cv rnd uu rid (get_prop data ''playerId'') (get_prop data ''payload'') r s1
         else if get_prop data ''action'' = JStr ''input''
         then input_case cv rid (get_prop data ''playerId'') (get_prop data ''payload'') r s1
         else (s1, [], False))"
  by (simp add: on_message_def Let_def strict_eq_def the_room_def)

lemma connected_reached: "on_connection 0 init = connected"
  by (simp add: on_connection_def init_def connected_def)

subsection \<open>Messages whose handling throws\<close>












lemma on_message_throws_iff:
  "snd (snd (on_message cv rnd uu ws msg s)) \<longleftrightarrow>
     (case msg of
        None \<Rightarrow> True
      | Some data \<Rightarrow>
          nullish data
          \<or> (get_prop data ''action'' = JStr ''join'' \<and> nullish (get_prop data ''payload''))
          \<or> (get_prop data ''action'' = JStr ''input'' \<and> nullish (get_prop data ''payload'')
              \<and> (\<exists>p. player_at s (tostr cv (get_prop data ''roomId''))
                         (tostr cv (get_prop data ''playerId'')) = Some p \<and> is_alive p)))"
proof (cases msg)
  case None
  then show ?thesis by (simp add: on_message_def)
next
  case (Some data)
  have pl: "map_of (players (the_room cv (get_prop data ''roomId'') s)) pk
      = player_at s (tostr cv (get_prop data ''roomId'')) pk" for pk
    by (simp add: the_room_def player_at_def fresh_room_def split: option.splits)
  show ?thesis using Some
    by (auto simp: on_message_cases Let_def join_case_def update_case_def input_case_def pl
        split: option.splits)
qed

section \<open>Rooms in the store\<close>






lemma startGame_rooms:
  "map_of (rooms (startGame cv rnd uu rid s)) k =
     (if k = tostr cv rid
      then map_option (\<lambda>r. if running r then r
             else (fold (\<lambda>i rm. spawnObstacle rnd uu (i - 1) rm (- real i * 20)) [1, 2, 3, 4, 5, 6, 7, 8]
                    (r\<lparr>running := True, score := 0, room_t := 0, obstacles := [],
                       players := map (\<lambda>(k, p). (k, reset_player p)) (players r)\<rparr>))
                  \<lparr>gameInterval := True\<rparr>) (map_of (rooms s) k)
      else map_of (rooms s) k)"
  by (cases "map_of (rooms s) (tostr cv rid)")
     (simp_all add: startGame_def Let_def rooms_put_room)
















section \<open>The time of a room\<close>

lemma times_nonneg_put_room:
  "times_nonneg s \<Longrightarrow> 0 \<le> room_t r \<Longrightarrow> times_nonneg (put_room k r s)"
  by (auto simp: times_nonneg_def rooms_put_room)

lemma times_nonneg_rooms: "rooms s' = rooms s \<Longrightarrow> times_nonneg s' = times_nonneg s"
  by (simp add: times_nonneg_def)

lemma times_nonneg_the_room: "times_nonneg s \<Longrightarrow> 0 \<le> room_t (the_room cv rid s)"
  by (auto simp: times_nonneg_def the_room_def fresh_room_def split: option.splits)

lemma room_t_merge_update: "room_t (merge_update cv pid payload r) = room_t r"
  by (simp add: merge_update_def split: option.splits)

lemma times_nonneg_startGame: "times_nonneg s \<Longrightarrow> times_nonneg (startGame cv rnd uu rid s)"
  by (auto simp: times_nonneg_def startGame_rooms spawnObstacle_def Let_def split: if_splits)

lemma on_message_times_nonneg:
  assumes "times_nonneg s"
  shows "times_nonneg (fst (on_message cv rnd uu ws msg s))"
proof (cases msg)
  case None
  then show ?thesis using assms by (simp add: on_message_def)
next
  case (Some data)
  let ?rid = "get_prop data ''roomId''"
  let ?pid = "get_prop data ''playerId''"
  let ?payload = "get_prop data ''payload''"
  let ?r = "the_room cv ?rid s"
  let ?s1 = "put_room (tostr cv ?rid) ?r s"
  have r: "0 \<le> room_t ?r" using assms by (rule times_nonneg_the_room)
  have s1: "times_nonneg ?s1" using assms r by (rule times_nonneg_put_room)
  have join: "times_nonneg (fst (join_case cv ws ?rid ?pid ?payload ?r ?s1))"
    using s1 r
    by (simp add: join_case_def Let_def times_nonneg_put_room
        times_nonneg_rooms[OF rooms_bind_client])
  have input: "times_nonneg (fst (input_case cv ?rid ?pid ?payload ?r ?s1))"
    using s1 r input_case_cases[of cv ?rid ?pid ?payload ?r ?s1]
    by (auto simp: times_nonneg_put_room)
  have update: "times_nonneg (fst (update_case cv rnd uu ?rid ?pid ?payload ?r ?s1))"
    using s1 r
    by (simp add: update_case_result Let_def times_nonneg_startGame times_nonneg_put_room
        room_t_merge_update)
  show ?thesis using Some assms s1 join input update
    by (simp add: on_message_cases Let_def)
qed

lemma gameLoop_times_nonneg:
  assumes "times_nonneg s"
  shows "times_nonneg (fst (gameLoop cv rnd rid s))"
proof (cases "map_of (rooms s) (tostr cv rid)")
  case None
  then show ?thesis using assms by (simp add: gameLoop_idle)
next
  case (Some r)
  show ?thesis
  proof (cases "running r")
    case False
    then show ?thesis using assms Some by (simp add: gameLoop_idle)
  next
    case True
    have "0 \<le> room_t r" using assms Some by (simp add: times_nonneg_def)
    then have "0 \<le> room_t (tick_room cv rnd r)"
      by (simp add: tick_room_def TICK_TIME_def TICK_RATE_def)
    then show ?thesis using assms
      by (simp add: gameLoop_running[OF Some True] times_nonneg_put_room)
  qed
qed

lemma on_close_times_nonneg:
  assumes "times_nonneg s"
  shows "times_nonneg (fst (on_close cv ws s))"
proof -
  let ?s0 = "s\<lparr>clients := AList.delete ws (clients s)\<rparr>"
  have s0: "times_nonneg ?s0" using assms by (simp add: times_nonneg_def)
  show ?thesis
  proof (cases "map_of (clients s) ws")
    case None
    then show ?thesis using on_close_unbound[of s ws cv] s0 by simp
  next
    case (Some c)
    show ?thesis
    proof (cases "map_of (rooms s) (tostr cv (roomId c)) = None
                \<or> \<not> (truthy (roomId c) \<and> truthy (playerId c))")
      case True
      then have "on_close cv ws s = (?s0, [])" using on_close_unbound[of s ws cv] Some by blast
      then show ?thesis using s0 by simp
    next
      case False
      then obtain r where r: "map_of (rooms s) (tostr cv (roomId c)) = Some r" by auto
      have t: "0 \<le> room_t r" using assms r by (simp add: times_nonneg_def)
      have del: "times_nonneg (?s0\<lparr>rooms := AList.delete (tostr cv (roomId c)) (rooms s)\<rparr>)"
        using assms by (auto simp: times_nonneg_def delete_conv' split: if_splits)
      show ?thesis using False s0 del t
        by (simp add: on_close_bound[OF Some r] Let_def times_nonneg_put_room)
    qed
  qed
qed

lemma step_times_nonneg:
  assumes "times_nonneg s"
  shows "times_nonneg (fst (step cv e s))"
proof (cases e)
  case (Connection ws)
  then show ?thesis using assms by (simp add: times_nonneg_def on_connection_def)
next
  case (Message ws msg rnd uu)
  then show ?thesis using assms
    by (simp add: step_Message on_message_times_nonneg del: step.simps)
next
  case (Close ws)
  then show ?thesis using assms by (simp add: on_close_times_nonneg)
next
  case (Tick rid rnd)
  then show ?thesis using assms by (simp add: gameLoop_times_nonneg)
qed

text \<open>In every state reached from the empty store, the time of every room is not
  negative: the hypothesis on \<open>room_t\<close> in the statement on obstacles (claim C3) holds
  in all of them.\<close>

lemma reachable_times_nonneg: "times_nonneg (fst (run cv evs init))"
proof -
  have "times_nonneg s \<Longrightarrow> times_nonneg (fst (run cv evs s))" for s
  proof (induction evs arbitrary: s)
    case Nil
    then show ?case by simp
  next
    case (Cons e es)
    have "times_nonneg (fst (step cv e s))" using Cons.prems by (rule step_times_nonneg)
    then have "times_nonneg (fst (run cv es (fst (step cv e s))))" by (rule Cons.IH)
    then show ?case by (simp add: split_def Let_def del: step.simps)
  qed
  moreover have "times_nonneg init" by (simp add: times_nonneg_def init_def)
  ultimately show ?thesis by blast
qed

section \<open>The examples do not depend on the coercion table\<close>

lemma nan_run_any_coercions:
  "field_at (fst (run cv
     [Connection 0, join_msg ''R'' ''A'', update_msg ''R'' ''A'' (JObj [(''ready'', JBool True)]),
      update_msg ''R'' ''A'' (JObj [(''laneTarget'', JNum (Fin 5))]),
      Tick (JStr ''R'') rnd0] init)) ''R'' ''A'' ''laneCurrent''
   = Some (JNum NaN)"
  by (simp add: join_msg_def update_msg_def arena_def wreck_def dead_player_def lobby_def
      new_player_def join_payload_def rnd0_def uu0_def msg_of_def input_msg_def init_def
      fresh_room_def js_defs const_defs handler_defs engine_defs Let_def field_at_def
      player_at_def)

lemma failed_join_any_coercions:
  "on_message cv rnd uu 0
     (Some (JObj [(''roomId'', JStr ''R''), (''playerId'', JStr ''A''), (''action'', JStr ''join'')]))
     connected
   = (\<lparr>rooms = [(''R'', fresh_room)],
       clients = [(0, \<lparr>readyState = OPEN, roomId = JStr ''R'', playerId = JStr ''A''\<rparr>)]\<rparr>,
      [], True)"
  by (simp add: handler_defs js_defs put_room_def Let_def connected_def)

lemma ping_any_coercions:
  "fst (on_message cv rnd uu 0 (Some (msg_of ''R'' ''A'' ''ping'' JNull)) connected)
   = connected\<lparr>rooms := [(''R'', fresh_room)]\<rparr>"
  by (simp add: handler_defs js_defs msg_of_def put_room_def Let_def connected_def)

lemma sent_to_all_any_coercions:
  "fst (snd (on_message_v1 cv (Some (msg_of ''A'' ''p1'' ''join'' join_payload))
      \<lparr>rooms_v1 = [], clients_v1 = [(0, OPEN), (1, OPEN)]\<rparr>))
   = [(0, StateMsg (JStr ''A'') [(''p1'', new_player_v1 join_payload)]),
      (1, StateMsg (JStr ''A'') [(''p1'', new_player_v1 join_payload)])]"
  by (simp add: on_message_v1_def msg_of_def strict_eq_def send_all_v1_def Let_def join_payload_def)

text \<open>In the room server, a message without \<open>roomId\<close> is sent to the connections whose
  \<open>roomId\<close> is \<open>undefined\<close>, which are those that have not joined.\<close>

lemma join_without_roomId_reaches_unjoined:
  "fst (snd (on_message cv rnd uu 0
      (Some (JObj [(''playerId'', JStr ''A''), (''action'', JStr ''join''), (''payload'', join_payload)]))
      \<lparr>rooms = [],
       clients = [(0, \<lparr>readyState = OPEN, roomId = JUndefined, playerId = JUndefined\<rparr>),
                  (1, \<lparr>readyState = OPEN, roomId = JUndefined, playerId = JUndefined\<rparr>)]\<rparr>))
   = [(0, StateMsg JUndefined [(''A'', new_player join_payload)]),
      (1, StateMsg JUndefined [(''A'', new_player join_payload)])]"
  by (simp add: handler_defs js_defs put_room_def Let_def join_payload_def broadcastToRoom_def
      receives_def fresh_room_def)

end
